theory Spec2Isabelle
  imports
    Main
    "HOL-Library.AList"
    "HOL-Library.Char_ord"
    "HOL-Library.List_Lexorder"
begin

section \<open>Values shared by both modules\<close>

text \<open>
  The modules \<^verbatim>\<open>security.js\<close> and \<^verbatim>\<open>database.js\<close> are embedded function by function.
  A thrown \<^verbatim>\<open>Error\<close> is a value \<open>Inl (Error msg)\<close> of a sum type, a \<^verbatim>\<open>try/catch\<close> is a
  case distinction on it, module-level and on-disk state is passed explicitly, and every
  reading of the clock or of a random source is an argument of the function that reads it.
\<close>

datatype js_error = Error string

section \<open>Credential format check (security.js)\<close>

subsection \<open>A small regular-expression matcher\<close>

text \<open>
  \<^verbatim>\<open>isValidPIN\<close> is a single call of \<^verbatim>\<open>RegExp.prototype.test\<close>.  The pattern is
  embedded as a value of a regular-expression datatype and matched with Brzozowski
  derivatives; the anchors \<^verbatim>\<open>^\<close> and \<^verbatim>\<open>$\<close> (no \<^verbatim>\<open>m\<close> flag) make the match a match of
  the whole input.
\<close>

datatype rexp =
    Never
  | Eps
  | Class "char list"
  | Alt rexp rexp
  | Cat rexp rexp

fun nullable :: "rexp \<Rightarrow> bool" where
  "nullable Never = False"
| "nullable Eps = True"
| "nullable (Class cs) = False"
| "nullable (Alt r s) = (nullable r \<or> nullable s)"
| "nullable (Cat r s) = (nullable r \<and> nullable s)"

fun deriv :: "char \<Rightarrow> rexp \<Rightarrow> rexp" where
  "deriv c Never = Never"
| "deriv c Eps = Never"
| "deriv c (Class cs) = (if c \<in> set cs then Eps else Never)"
| "deriv c (Alt r s) = Alt (deriv c r) (deriv c s)"
| "deriv c (Cat r s) =
     (if nullable r then Alt (Cat (deriv c r) s) (deriv c s) else Cat (deriv c r) s)"

fun matches :: "rexp \<Rightarrow> string \<Rightarrow> bool" where
  "matches r [] = nullable r"
| "matches r (c # cs) = matches (deriv c r) cs"

text \<open>Bounded repetition \<^verbatim>\<open>r{lo,hi}\<close>: \<open>lo\<close> mandatory copies, then \<open>hi - lo\<close> optional ones.\<close>

fun at_most :: "nat \<Rightarrow> rexp \<Rightarrow> rexp" where
  "at_most 0 r = Eps"
| "at_most (Suc n) r = Alt Eps (Cat r (at_most n r))"

fun exactly_then :: "nat \<Rightarrow> rexp \<Rightarrow> rexp \<Rightarrow> rexp" where
  "exactly_then 0 r k = k"
| "exactly_then (Suc n) r k = Cat r (exactly_then n r k)"

definition repeat :: "nat \<Rightarrow> nat \<Rightarrow> rexp \<Rightarrow> rexp" where
  "repeat lo hi r = exactly_then lo r (at_most (hi - lo) r)"

text \<open>The class \<^verbatim>\<open>\d\<close> of ECMAScript: the ten ASCII digits.\<close>

definition digit_chars :: "char list" where
  "digit_chars = ''0123456789''"

definition digit_class :: rexp where
  "digit_class = Class digit_chars"

definition is_digit :: "char \<Rightarrow> bool" where
  "is_digit c = (c \<in> set digit_chars)"

text \<open>\<^verbatim>\<open>function isValidPIN(pin) { return /^\d{4,6}$/.test(pin); }\<close>\<close>

definition isValidPIN :: "string \<Rightarrow> bool" where
  "isValidPIN pin = matches (repeat 4 6 digit_class) pin"

text \<open>The language of a regular expression, against which the matcher is verified.\<close>

fun lang :: "rexp \<Rightarrow> string set" where
  "lang Never = {}"
| "lang Eps = {[]}"
| "lang (Class cs) = {[c] | c. c \<in> set cs}"
| "lang (Alt r s) = lang r \<union> lang s"
| "lang (Cat r s) = {u @ v | u v. u \<in> lang r \<and> v \<in> lang s}"

section \<open>Strings and numbers of the host language\<close>

text \<open>\<^verbatim>\<open>String(n)\<close> for an integer \<open>n\<close>: decimal digits, a minus sign for negative numbers.\<close>

definition digit_char :: "nat \<Rightarrow> char" where
  "digit_char d = digit_chars ! d"

function dec_str :: "nat \<Rightarrow> string" where
  "dec_str n = (if n < 10 then [digit_char n] else dec_str (n div 10) @ [digit_char (n mod 10)])"
  by pat_completeness auto
termination
  by (relation "measure (\<lambda>n. n)") auto

declare dec_str.simps [simp del]

definition num_str :: "int \<Rightarrow> string" where
  "num_str n = (if n < 0 then ''-'' @ dec_str (nat (- n)) else dec_str (nat n))"

text \<open>\<^verbatim>\<open>s.padStart(2, '0')\<close>\<close>

definition padStart2 :: "string \<Rightarrow> string" where
  "padStart2 s = replicate (2 - length s) (CHR ''0'') @ s"

section \<open>The platform library\<close>

text \<open>
  The code calls into Node.js for everything it does not do itself: \<^verbatim>\<open>crypto\<close> (scrypt,
  AES-256-GCM, SHA-256), \<^verbatim>\<open>Buffer\<close> (UTF-8 and base64 conversions), \<^verbatim>\<open>JSON\<close> and \<^verbatim>\<open>Date\<close>.
  None of that is code of the repository, so the embedding takes these functions as a
  record \<open>L\<close> of parameters.  \<open>'t\<close> is the type of the texts that are serialised, encrypted
  and stored (JavaScript strings), \<open>'b\<close> the type of byte buffers.  A library function that
  can throw returns an option, \<open>None\<close> standing for the exception.

  Values of record fields are the JSON scalars; \<open>JUndefined\<close> is the value of an absent
  property.  An object is the list of its properties in insertion order.
\<close>

datatype jsval = JUndefined | JNull | JBool bool | JNum int | JStr string

type_synonym jsobj = "(string \<times> jsval) list"

record user_doc =
  userId :: string
  records :: "jsobj list"
  metadata :: "jsobj option"

record ('t, 'b) lib =
  scryptSync :: "string \<Rightarrow> 'b"
  aes_gcm_encrypt :: "'b \<Rightarrow> 'b \<Rightarrow> 'b \<Rightarrow> ('b \<times> 'b) option"
  aes_gcm_decrypt :: "'b \<Rightarrow> 'b \<Rightarrow> 'b \<Rightarrow> 'b \<Rightarrow> 'b option"
  sha256_hex :: "string \<Rightarrow> string"
  utf8_bytes :: "'t \<Rightarrow> 'b"
  utf8_text :: "'b \<Rightarrow> 't"
  base64_text :: "'b \<Rightarrow> 't"
  base64_bytes :: "'t \<Rightarrow> 'b"
  json_stringify_obj :: "(string \<times> 't) list \<Rightarrow> 't"
  json_parse_obj :: "'t \<Rightarrow> (string \<times> 't) list option"
  json_stringify_doc :: "user_doc \<Rightarrow> 't"
  json_parse_doc :: "'t \<Rightarrow> user_doc option"
  toISOString :: "int \<Rightarrow> string"
  date_value :: "jsval \<Rightarrow> int option"

text \<open>
  \<^item> \<open>scryptSync L id\<close> is \<^verbatim>\<open>crypto.scryptSync(id, 'salt', KEY_LENGTH)\<close>.
  \<^item> \<open>aes_gcm_encrypt L key iv plain\<close> is the pair (ciphertext, authentication tag) of
    \<^verbatim>\<open>createCipheriv('aes-256-gcm', key, iv)\<close>, \<^verbatim>\<open>update\<close>, \<^verbatim>\<open>final\<close>, \<^verbatim>\<open>getAuthTag\<close>;
    \<open>aes_gcm_decrypt L key iv tag cipher\<close> is \<^verbatim>\<open>createDecipheriv\<close>, \<^verbatim>\<open>setAuthTag\<close>,
    \<^verbatim>\<open>update\<close>, \<^verbatim>\<open>final\<close>, which throws when the tag does not verify.
  \<^item> \<open>json_parse_obj\<close> and \<open>json_parse_doc\<close> are \<^verbatim>\<open>JSON.parse\<close> read at the type of the blob
    object and of a user document; \<open>None\<close> is a \<^verbatim>\<open>SyntaxError\<close>.
  \<^item> \<open>toISOString L t\<close> is \<^verbatim>\<open>new Date(t).toISOString()\<close> for the clock reading \<open>t\<close> in
    milliseconds; \<open>date_value L v\<close> is the time value of \<^verbatim>\<open>new Date(v)\<close>, \<open>None\<close> when it
    is \<^verbatim>\<open>NaN\<close>.
\<close>

section \<open>Process and disk state\<close>

text \<open>
  \<open>MASTER_KEY\<close> is the module variable of \<^verbatim>\<open>security.js\<close>, \<open>DEVICE_ID\<close> the environment
  variable it is derived from, \<open>files\<close> the content of the data directory.  The three
  predicates say for which paths \<^verbatim>\<open>readFileSync\<close>, \<^verbatim>\<open>writeFileSync\<close> and \<^verbatim>\<open>unlinkSync\<close> throw
  (a directory in place of the file, missing permissions, a full disk).
\<close>

record ('t, 'b) state =
  MASTER_KEY :: "'b option"
  DEVICE_ID :: "string option"
  files :: "string \<rightharpoonup> 't"
  read_fails :: "string \<Rightarrow> bool"
  write_fails :: "string \<Rightarrow> bool"
  unlink_fails :: "string \<Rightarrow> bool"

definition existsSync :: "('t, 'b) state \<Rightarrow> string \<Rightarrow> bool" where
  "existsSync s p = (files s p \<noteq> None)"

definition readFileSync :: "('t, 'b) state \<Rightarrow> string \<Rightarrow> js_error + 't" where
  "readFileSync s p =
     (case files s p of
        None \<Rightarrow> Inl (Error ''ENOENT'')
      | Some content \<Rightarrow> if read_fails s p then Inl (Error ''EACCES'') else Inr content)"

definition writeFileSync :: "('t, 'b) state \<Rightarrow> string \<Rightarrow> 't \<Rightarrow> js_error + ('t, 'b) state" where
  "writeFileSync s p content =
     (if write_fails s p then Inl (Error ''EACCES'')
      else Inr (s\<lparr>files := (files s)(p \<mapsto> content)\<rparr>))"

definition unlinkSync :: "('t, 'b) state \<Rightarrow> string \<Rightarrow> js_error + ('t, 'b) state" where
  "unlinkSync s p =
     (case files s p of
        None \<Rightarrow> Inl (Error ''ENOENT'')
      | Some content \<Rightarrow>
          if unlink_fails s p then Inl (Error ''EPERM'')
          else Inr (s\<lparr>files := (files s)(p := None)\<rparr>))"

section \<open>Encryption (security.js)\<close>

text \<open>
  \<^verbatim>\<open>getMasterKey\<close>: the key is derived on first use from \<^verbatim>\<open>process.env.DEVICE_ID ||
  'gyneco-bot-default-key'\<close> and cached in \<open>MASTER_KEY\<close>.
\<close>

definition getMasterKey :: "('t, 'b) lib \<Rightarrow> ('t, 'b) state \<Rightarrow> 'b \<times> ('t, 'b) state" where
  "getMasterKey L s =
     (case MASTER_KEY s of
        Some key \<Rightarrow> (key, s)
      | None \<Rightarrow>
          (let identifier =
                 (case DEVICE_ID s of
                    None \<Rightarrow> ''gyneco-bot-default-key''
                  | Some d \<Rightarrow> if d = [] then ''gyneco-bot-default-key'' else d);
               key = scryptSync L identifier
           in (key, s\<lparr>MASTER_KEY := Some key\<rparr>)))"

text \<open>
  \<^verbatim>\<open>encryptData(plaintext)\<close>.  \<open>nonce\<close> is the value of \<^verbatim>\<open>crypto.randomBytes(IV_LENGTH)\<close>.
  The result is the base64 text of the JSON text of the object
  \<^verbatim>\<open>{iv, authTag, encrypted}\<close>, each field in base64.  Any exception is caught and
  rethrown as \<^verbatim>\<open>Error('Falha na criptografia')\<close>.
\<close>

definition encryptData ::
  "('t, 'b) lib \<Rightarrow> ('t, 'b) state \<Rightarrow> 'b \<Rightarrow> 't \<Rightarrow> (js_error + 't) \<times> ('t, 'b) state" where
  "encryptData L s nonce plaintext =
     (let (key, s1) = getMasterKey L s in
      case aes_gcm_encrypt L key nonce (utf8_bytes L plaintext) of
        None \<Rightarrow> (Inl (Error ''Falha na criptografia''), s1)
      | Some (cipher, tag) \<Rightarrow>
          (let combined =
                 [(''iv'', base64_text L nonce),
                  (''authTag'', base64_text L tag),
                  (''encrypted'', base64_text L cipher)]
           in (Inr (base64_text L (utf8_bytes L (json_stringify_obj L combined))), s1)))"

text \<open>
  \<^verbatim>\<open>decryptData(ciphertext)\<close>.  A missing \<^verbatim>\<open>iv\<close> or \<^verbatim>\<open>authTag\<close> makes \<^verbatim>\<open>Buffer.from\<close> throw before
  the key is fetched, a missing \<^verbatim>\<open>encrypted\<close> makes \<^verbatim>\<open>decipher.update\<close> throw after it.  Any
  exception is caught and rethrown as \<^verbatim>\<open>Error('Falha na descriptografia')\<close>.
\<close>

definition decryptData ::
  "('t, 'b) lib \<Rightarrow> ('t, 'b) state \<Rightarrow> 't \<Rightarrow> (js_error + 't) \<times> ('t, 'b) state" where
  "decryptData L s ciphertext =
     (case json_parse_obj L (utf8_text L (base64_bytes L ciphertext)) of
        None \<Rightarrow> (Inl (Error ''Falha na descriptografia''), s)
      | Some combined \<Rightarrow>
          (case (map_of combined ''iv'', map_of combined ''authTag'') of
             (Some iv64, Some tag64) \<Rightarrow>
               (let (key, s1) = getMasterKey L s in
                case map_of combined ''encrypted'' of
                  None \<Rightarrow> (Inl (Error ''Falha na descriptografia''), s1)
                | Some cipher64 \<Rightarrow>
                    (case aes_gcm_decrypt L key (base64_bytes L iv64) (base64_bytes L tag64)
                            (base64_bytes L cipher64) of
                       None \<Rightarrow> (Inl (Error ''Falha na descriptografia''), s1)
                     | Some plain \<Rightarrow> (Inr (utf8_text L plain), s1)))
           | _ \<Rightarrow> (Inl (Error ''Falha na descriptografia''), s)))"

text \<open>What the cipher relies on: the library functions invert each other.\<close>

definition codecs_invert :: "('t, 'b) lib \<Rightarrow> bool" where
  "codecs_invert L \<longleftrightarrow>
     (\<forall>b. base64_bytes L (base64_text L b) = b) \<and>
     (\<forall>t. utf8_text L (utf8_bytes L t) = t) \<and>
     (\<forall>obj. json_parse_obj L (json_stringify_obj L obj) = Some obj)"

definition aead_correct :: "('t, 'b) lib \<Rightarrow> bool" where
  "aead_correct L \<longleftrightarrow>
     (\<forall>key nonce plain. \<exists>cipher tag.
        aes_gcm_encrypt L key nonce plain = Some (cipher, tag) \<and>
        aes_gcm_decrypt L key nonce tag cipher = Some plain)"

section \<open>Sessions (security.js)\<close>

record session =
  session_userId :: string
  token :: string
  createdAt :: int
  lastActivity :: int

record SessionManager =
  sessions :: "string \<rightharpoonup> session"
  timeoutMs :: int

text \<open>\<^verbatim>\<open>new SessionManager(timeoutMs = 1800000)\<close>\<close>

definition new_SessionManager :: "int option \<Rightarrow> SessionManager" where
  "new_SessionManager t =
     \<lparr>sessions = Map.empty, timeoutMs = (case t of None \<Rightarrow> 1800000 | Some ms \<Rightarrow> ms)\<rparr>"

text \<open>
  \<^verbatim>\<open>generateSessionToken(userId)\<close>; \<open>now\<close> is the reading of \<^verbatim>\<open>Date.now()\<close> and \<open>random\<close> the
  hexadecimal text of \<^verbatim>\<open>crypto.randomBytes(16)\<close>.
\<close>

definition generateSessionToken :: "('t, 'b) lib \<Rightarrow> int \<Rightarrow> string \<Rightarrow> string \<Rightarrow> string" where
  "generateSessionToken L now random uid =
     sha256_hex L (uid @ ''-'' @ num_str now @ ''-'' @ random)"

text \<open>\<^verbatim>\<open>createSession(userId)\<close> reads the clock three times.\<close>

definition createSession ::
  "('t, 'b) lib \<Rightarrow> SessionManager \<Rightarrow> int \<Rightarrow> string \<Rightarrow> int \<Rightarrow> int \<Rightarrow> string
     \<Rightarrow> string \<times> SessionManager" where
  "createSession L sm now_token random now_created now_activity uid =
     (let tok = generateSessionToken L now_token random uid;
          new_session = \<lparr>session_userId = uid, token = tok, createdAt = now_created,
                          lastActivity = now_activity\<rparr>
      in (tok, sm\<lparr>sessions := (sessions sm)(uid \<mapsto> new_session)\<rparr>))"

definition destroySession :: "SessionManager \<Rightarrow> string \<Rightarrow> SessionManager" where
  "destroySession sm uid = sm\<lparr>sessions := (sessions sm)(uid := None)\<rparr>"

text \<open>\<^verbatim>\<open>validateSession(userId, token)\<close>; \<open>now\<close> is the reading of \<^verbatim>\<open>Date.now()\<close>.\<close>

definition validateSession ::
  "SessionManager \<Rightarrow> int \<Rightarrow> string \<Rightarrow> string \<Rightarrow> bool \<times> SessionManager" where
  "validateSession sm now uid tok =
     (case sessions sm uid of
        None \<Rightarrow> (False, sm)
      | Some session \<Rightarrow>
          if token session \<noteq> tok then (False, sm)
          else
            (let timeSinceActivity = now - lastActivity session in
             if timeSinceActivity > timeoutMs sm then (False, destroySession sm uid)
             else (True, sm\<lparr>sessions := (sessions sm)(uid \<mapsto> session\<lparr>lastActivity := now\<rparr>)\<rparr>)))"

definition updateActivity :: "SessionManager \<Rightarrow> int \<Rightarrow> string \<Rightarrow> SessionManager" where
  "updateActivity sm now uid =
     (case sessions sm uid of
        None \<Rightarrow> sm
      | Some session \<Rightarrow> sm\<lparr>sessions := (sessions sm)(uid \<mapsto> session\<lparr>lastActivity := now\<rparr>)\<rparr>)"

section \<open>The record store (database.js)\<close>

subsection \<open>Objects\<close>

text \<open>
  \<open>field obj k\<close> is the property read \<^verbatim>\<open>obj.k\<close>, \<open>truthy\<close> the conversion to a boolean that
  \<^verbatim>\<open>||\<close> performs, \<open>spread target src\<close> the object literal \<^verbatim>\<open>{...target, ...src}\<close>: the
  properties of \<open>src\<close> are written to \<open>target\<close> one by one, in order, replacing the value
  of a key that is already there.
\<close>

definition field :: "jsobj \<Rightarrow> string \<Rightarrow> jsval" where
  "field obj k = (case map_of obj k of None \<Rightarrow> JUndefined | Some v \<Rightarrow> v)"

fun truthy :: "jsval \<Rightarrow> bool" where
  "truthy JUndefined = False"
| "truthy JNull = False"
| "truthy (JBool b) = b"
| "truthy (JNum n) = (n \<noteq> 0)"
| "truthy (JStr s) = (s \<noteq> [])"

definition spread :: "jsobj \<Rightarrow> jsobj \<Rightarrow> jsobj" where
  "spread target src = fold (\<lambda>(k, v). AList.update k v) src target"

subsection \<open>Calendar dates\<close>

text \<open>
  A \<^verbatim>\<open>Date\<close> as the code reads it: through \<^verbatim>\<open>getFullYear()\<close>, \<^verbatim>\<open>getMonth()\<close> (0 to 11) and
  \<^verbatim>\<open>getDate()\<close> in local time.
\<close>

record date =
  getFullYear :: int
  getMonth :: nat
  getDate :: nat

definition leap_year :: "int \<Rightarrow> bool" where
  "leap_year y \<longleftrightarrow> y mod 4 = 0 \<and> (y mod 100 \<noteq> 0 \<or> y mod 400 = 0)"

definition days_in_month :: "int \<Rightarrow> nat \<Rightarrow> nat" where
  "days_in_month y m =
     (if m = 1 then (if leap_year y then 29 else 28)
      else if m = 3 \<or> m = 5 \<or> m = 8 \<or> m = 10 then 30 else 31)"

definition valid_date :: "date \<Rightarrow> bool" where
  "valid_date d \<longleftrightarrow>
     getMonth d < 12 \<and> 1 \<le> getDate d \<and> getDate d \<le> days_in_month (getFullYear d) (getMonth d)"

definition prev_day :: "date \<Rightarrow> date" where
  "prev_day d =
     (if 1 < getDate d then d\<lparr>getDate := getDate d - 1\<rparr>
      else if 0 < getMonth d
        then d\<lparr>getMonth := getMonth d - 1,
               getDate := days_in_month (getFullYear d) (getMonth d - 1)\<rparr>
      else \<lparr>getFullYear = getFullYear d - 1, getMonth = 11, getDate = 31\<rparr>)"

definition next_day :: "date \<Rightarrow> date" where
  "next_day d =
     (if getDate d < days_in_month (getFullYear d) (getMonth d) then d\<lparr>getDate := getDate d + 1\<rparr>
      else if getMonth d < 11 then d\<lparr>getMonth := getMonth d + 1, getDate := 1\<rparr>
      else \<lparr>getFullYear = getFullYear d + 1, getMonth = 0, getDate = 1\<rparr>)"

text \<open>
  \<^verbatim>\<open>d.setDate(d.getDate() - days)\<close> moves a date by whole days through the calendar: back
  for a positive \<open>days\<close>, forward for a negative one.
\<close>

definition setDate_minus :: "int \<Rightarrow> date \<Rightarrow> date" where
  "setDate_minus days d =
     (if 0 \<le> days then (prev_day ^^ nat days) d else (next_day ^^ nat (- days)) d)"

text \<open>\<^verbatim>\<open>formatDate(date)\<close>: the year as it is, month and day padded to two digits.\<close>

definition formatDate :: "date \<Rightarrow> string" where
  "formatDate d =
     (let year = num_str (getFullYear d);
          month = padStart2 (num_str (int (getMonth d + 1)));
          day = padStart2 (num_str (int (getDate d)))
      in year @ ''-'' @ month @ ''-'' @ day)"

subsection \<open>Paths\<close>

text \<open>\<^verbatim>\<open>s.replace(pat, '')\<close> with a string pattern removes its first occurrence.\<close>

fun remove_first :: "string \<Rightarrow> string \<Rightarrow> string" where
  "remove_first pat [] = []"
| "remove_first pat (c # cs) =
     (if take (length pat) (c # cs) = pat then drop (length pat) (c # cs)
      else c # remove_first pat cs)"

text \<open>\<^verbatim>\<open>phoneNumber.replace('@s.whatsapp.net', '').replace(/[^0-9]/g, '')\<close>\<close>

definition sanitizePhoneNumber :: "string \<Rightarrow> string" where
  "sanitizePhoneNumber phoneNumber =
     filter is_digit (remove_first ''@s.whatsapp.net'' phoneNumber)"

definition DATA_DIR :: string where
  "DATA_DIR = ''data/users''"

definition getUserDataPath :: "string \<Rightarrow> string" where
  "getUserDataPath uid = DATA_DIR @ ''/'' @ sanitizePhoneNumber uid @ ''.json''"

subsection \<open>Loading and saving\<close>

text \<open>The two object literals of \<^verbatim>\<open>loadUserData\<close>; each reads the clock twice.\<close>

definition empty_document :: "('t, 'b) lib \<Rightarrow> int \<times> int \<Rightarrow> string \<Rightarrow> user_doc" where
  "empty_document L now uid =
     \<lparr>userId = sanitizePhoneNumber uid,
      records = [],
      metadata = Some [(''createdAt'', JStr (toISOString L (fst now))),
                       (''lastUpdate'', JStr (toISOString L (snd now))),
                       (''totalRecords'', JNum 0)]\<rparr>"

definition error_document :: "('t, 'b) lib \<Rightarrow> int \<times> int \<Rightarrow> string \<Rightarrow> user_doc" where
  "error_document L now uid =
     \<lparr>userId = sanitizePhoneNumber uid,
      records = [],
      metadata = Some [(''createdAt'', JStr (toISOString L (fst now))),
                       (''lastUpdate'', JStr (toISOString L (snd now))),
                       (''totalRecords'', JNum 0),
                       (''error'', JStr ''Falha ao carregar dados anteriores'')]\<rparr>"

text \<open>
  \<^verbatim>\<open>loadUserData(userId, encrypted)\<close>.  Every exception of the \<^verbatim>\<open>try\<close> block (reading,
  decrypting, parsing) ends in the \<^verbatim>\<open>catch\<close>, which returns the error document.
\<close>

definition loadUserData ::
  "('t, 'b) lib \<Rightarrow> ('t, 'b) state \<Rightarrow> int \<times> int \<Rightarrow> string \<Rightarrow> bool
     \<Rightarrow> user_doc \<times> ('t, 'b) state" where
  "loadUserData L s now uid encrypted =
     (let filePath = getUserDataPath uid in
      if \<not> existsSync s filePath then (empty_document L now uid, s)
      else
        case readFileSync s filePath of
          Inl e \<Rightarrow> (error_document L now uid, s)
        | Inr fileContent \<Rightarrow>
            (let (decrypted, s1) =
                   (if encrypted then decryptData L s fileContent else (Inr fileContent, s))
             in case decrypted of
                  Inl e \<Rightarrow> (error_document L now uid, s1)
                | Inr text \<Rightarrow>
                    (case json_parse_doc L text of
                       None \<Rightarrow> (error_document L now uid, s1)
                     | Some data \<Rightarrow> (data, s1))))"

text \<open>
  The document that \<^verbatim>\<open>saveUserData\<close> serialises: \<^verbatim>\<open>data.metadata || {}\<close> with
  \<^verbatim>\<open>lastUpdate\<close> and \<^verbatim>\<open>totalRecords\<close> assigned.
\<close>

definition with_metadata :: "('t, 'b) lib \<Rightarrow> int \<Rightarrow> user_doc \<Rightarrow> user_doc" where
  "with_metadata L now data =
     (let m0 = (case metadata data of None \<Rightarrow> [] | Some m \<Rightarrow> m);
          m1 = AList.update ''lastUpdate'' (JStr (toISOString L now)) m0;
          m2 = AList.update ''totalRecords'' (JNum (int (length (records data)))) m1
      in data\<lparr>metadata := Some m2\<rparr>)"

text \<open>
  \<^verbatim>\<open>saveUserData(userId, data, encrypted)\<close>; \<open>now\<close> is its clock reading and \<open>nonce\<close> the
  random bytes that \<^verbatim>\<open>encryptData\<close> draws.  The \<^verbatim>\<open>catch\<close> returns \<^verbatim>\<open>false\<close>.
\<close>

definition saveUserData ::
  "('t, 'b) lib \<Rightarrow> ('t, 'b) state \<Rightarrow> int \<Rightarrow> 'b \<Rightarrow> string \<Rightarrow> user_doc \<Rightarrow> bool
     \<Rightarrow> bool \<times> ('t, 'b) state" where
  "saveUserData L s now nonce uid data encrypted =
     (let filePath = getUserDataPath uid;
          jsonData = json_stringify_doc L (with_metadata L now data);
          (content, s1) = (if encrypted then encryptData L s nonce jsonData else (Inr jsonData, s))
      in case content of
           Inl e \<Rightarrow> (False, s1)
         | Inr text \<Rightarrow>
             (case writeFileSync s1 filePath text of
                Inl e \<Rightarrow> (False, s1)
              | Inr s2 \<Rightarrow> (True, s2)))"

subsection \<open>Adding a record\<close>

text \<open>
  \<^verbatim>\<open>generateRecordId()\<close>; \<open>random\<close> is the text of
  \<^verbatim>\<open>Math.random().toString(36).substr(2, 9)\<close>.
\<close>

definition generateRecordId :: "int \<Rightarrow> string \<Rightarrow> string" where
  "generateRecordId now random = num_str now @ ''-'' @ random"

text \<open>
  The comparator \<^verbatim>\<open>(a, b) => new Date(b.timestamp) - new Date(a.timestamp)\<close>; \<open>None\<close> is
  \<^verbatim>\<open>NaN\<close>, the difference when one of the two dates is invalid.
\<close>

definition compare_timestamp :: "('t, 'b) lib \<Rightarrow> jsobj \<Rightarrow> jsobj \<Rightarrow> int option" where
  "compare_timestamp L a b =
     (case (date_value L (field b ''timestamp''), date_value L (field a ''timestamp'')) of
        (Some tb, Some ta) \<Rightarrow> Some (tb - ta)
      | _ \<Rightarrow> None)"

text \<open>
  \<^verbatim>\<open>Array.prototype.sort(comparefn)\<close> is a stable sort; a comparator result that is not
  positive (\<^verbatim>\<open>NaN\<close> counts as 0) leaves two elements in their order.  Insertion from the
  right computes it.
\<close>

fun insert_sorted :: "('a \<Rightarrow> 'a \<Rightarrow> int option) \<Rightarrow> 'a \<Rightarrow> 'a list \<Rightarrow> 'a list" where
  "insert_sorted cmp x [] = [x]"
| "insert_sorted cmp x (y # ys) =
     (if (case cmp x y of None \<Rightarrow> False | Some c \<Rightarrow> 0 < c) then y # insert_sorted cmp x ys
      else x # y # ys)"

definition array_sort :: "('a \<Rightarrow> 'a \<Rightarrow> int option) \<Rightarrow> 'a list \<Rightarrow> 'a list" where
  "array_sort cmp xs = foldr (insert_sorted cmp) xs []"

text \<open>The readings that one call of \<^verbatim>\<open>addRecord\<close> takes from its environment.\<close>

record 'b add_inputs =
  load_now :: "int \<times> int"
  id_now :: int
  id_random :: string
  stamp_now :: int
  today :: date
  save_now :: int
  save_nonce :: 'b

text \<open>The object literal \<^verbatim>\<open>newRecord\<close> of \<^verbatim>\<open>addRecord\<close>.\<close>

definition newRecord :: "('t, 'b) lib \<Rightarrow> 'b add_inputs \<Rightarrow> jsobj \<Rightarrow> jsobj" where
  "newRecord L inp record =
     spread
       [(''id'', JStr (generateRecordId (id_now inp) (id_random inp))),
        (''timestamp'', JStr (toISOString L (stamp_now inp))),
        (''date'', if truthy (field record ''date'') then field record ''date''
                   else JStr (formatDate (today inp))),
        (''category'', if truthy (field record ''category'') then field record ''category''
                       else JStr ''observacao''),
        (''content'', field record ''content'')]
       record"

text \<open>\<^verbatim>\<open>addRecord(userId, record, encrypted)\<close>\<close>

definition addRecord ::
  "('t, 'b) lib \<Rightarrow> ('t, 'b) state \<Rightarrow> 'b add_inputs \<Rightarrow> string \<Rightarrow> jsobj \<Rightarrow> bool
     \<Rightarrow> bool \<times> ('t, 'b) state" where
  "addRecord L s inp uid record encrypted =
     (let (userData, s1) = loadUserData L s (load_now inp) uid encrypted;
          pushed = records userData @ [newRecord L inp record];
          sortedRecords = array_sort (compare_timestamp L) pushed
      in saveUserData L s1 (save_now inp) (save_nonce inp) uid
           (userData\<lparr>records := sortedRecords\<rparr>) encrypted)"

subsection \<open>Queries and deletion\<close>

text \<open>\<^verbatim>\<open>getRecordsByDate(userId, date, encrypted)\<close>: \<^verbatim>\<open>record.date === date\<close>\<close>

definition getRecordsByDate ::
  "('t, 'b) lib \<Rightarrow> ('t, 'b) state \<Rightarrow> int \<times> int \<Rightarrow> string \<Rightarrow> string \<Rightarrow> bool
     \<Rightarrow> jsobj list \<times> ('t, 'b) state" where
  "getRecordsByDate L s now uid day encrypted =
     (let (userData, s1) = loadUserData L s now uid encrypted
      in (filter (\<lambda>record. field record ''date'' = JStr day) (records userData), s1))"

text \<open>
  \<^verbatim>\<open>record.date >= limitDateStr\<close>: two strings are compared by their characters; a date
  that is not a string is converted to a number together with the limit, which is not
  the text of a number, so the comparison is false.
\<close>

definition date_ge :: "jsval \<Rightarrow> string \<Rightarrow> bool" where
  "date_ge v limit = (case v of JStr d \<Rightarrow> limit \<le> d | _ \<Rightarrow> False)"

text \<open>
  \<^verbatim>\<open>getRecentRecords(userId, days, encrypted)\<close>; \<open>current\<close> is the local date of its
  \<^verbatim>\<open>new Date()\<close>.
\<close>

definition getRecentRecords ::
  "('t, 'b) lib \<Rightarrow> ('t, 'b) state \<Rightarrow> int \<times> int \<Rightarrow> date \<Rightarrow> string \<Rightarrow> int \<Rightarrow> bool
     \<Rightarrow> jsobj list \<times> ('t, 'b) state" where
  "getRecentRecords L s now current uid days encrypted =
     (let (userData, s1) = loadUserData L s now uid encrypted;
          limitDate = setDate_minus days current;
          limitDateStr = formatDate limitDate
      in (filter (\<lambda>record. date_ge (field record ''date'') limitDateStr) (records userData), s1))"


text \<open>\<^verbatim>\<open>deleteUserData(userId)\<close>; the \<^verbatim>\<open>catch\<close> returns \<^verbatim>\<open>false\<close>.\<close>

definition deleteUserData :: "('t, 'b) state \<Rightarrow> string \<Rightarrow> bool \<times> ('t, 'b) state" where
  "deleteUserData s uid =
     (let filePath = getUserDataPath uid in
      if existsSync s filePath then
        (case unlinkSync s filePath of
           Inl e \<Rightarrow> (False, s)
         | Inr s1 \<Rightarrow> (True, s1))
      else (False, s))"

subsection \<open>What is stored, and what the store relies on\<close>

text \<open>
  \<open>stored_as L s nonce encrypted d text\<close>: \<open>text\<close> is what \<^verbatim>\<open>saveUserData\<close> writes for the
  document \<open>d\<close>, its JSON text or the encryption of that text in state \<open>s\<close>.
\<close>

definition stored_as ::
  "('t, 'b) lib \<Rightarrow> ('t, 'b) state \<Rightarrow> 'b \<Rightarrow> bool \<Rightarrow> user_doc \<Rightarrow> 't \<Rightarrow> bool" where
  "stored_as L s nonce encrypted d text =
     (if encrypted then fst (encryptData L s nonce (json_stringify_doc L d)) = Inr text
      else text = json_stringify_doc L d)"


definition dated :: "('t, 'b) lib \<Rightarrow> jsobj \<Rightarrow> bool" where
  "dated L r \<longleftrightarrow> date_value L (field r ''timestamp'') \<noteq> None"


text \<open>
  \<^verbatim>\<open>JSON.stringify\<close> leaves out the properties whose value is \<^verbatim>\<open>undefined\<close>; \<open>json_image d\<close>
  is the document that \<^verbatim>\<open>JSON.parse\<close> reads back from the text of \<open>d\<close>.
\<close>

definition drop_undefined :: "jsobj \<Rightarrow> jsobj" where
  "drop_undefined obj = filter (\<lambda>kv. snd kv \<noteq> JUndefined) obj"

definition json_image :: "user_doc \<Rightarrow> user_doc" where
  "json_image d =
     d\<lparr>records := map drop_undefined (records d),
       metadata := map_option drop_undefined (metadata d)\<rparr>"



subsection \<open>Order of dates and of their texts\<close>

text \<open>
  \<open>digits k n\<close> is the decimal numeral of \<open>n\<close> written with exactly \<open>k\<close> digits,
  \<open>date_before\<close> the order of the calendar, and a year has four digits from 1000 to 9999.
\<close>

fun digits :: "nat \<Rightarrow> nat \<Rightarrow> string" where
  "digits 0 n = []"
| "digits (Suc k) n = digits k (n div 10) @ [digit_char (n mod 10)]"

definition date_before :: "date \<Rightarrow> date \<Rightarrow> bool" where
  "date_before a b \<longleftrightarrow>
     getFullYear a < getFullYear b \<or>
     (getFullYear a = getFullYear b \<and>
       (getMonth a < getMonth b \<or> (getMonth a = getMonth b \<and> getDate a < getDate b)))"

definition four_digit_year :: "date \<Rightarrow> bool" where
  "four_digit_year d \<longleftrightarrow> 1000 \<le> getFullYear d \<and> getFullYear d \<le> 9999"

section \<open>A small instance of the library\<close>

text \<open>
  The theorems below hold for every library that meets the contracts they name.  To
  show that the contracts can be met, and to run the functions on concrete inputs, here
  is one instance: texts and buffers are terms that record how they were made, so that
  every encoding has its inverse, and a date is printed as its number of milliseconds.
\<close>

datatype demo_bytes =
    Octets string
  | Utf8 demo_text
  | Derived_key string
  | Sealed demo_bytes demo_bytes demo_bytes
  | Tag demo_bytes demo_bytes demo_bytes
and demo_text =
    Text string
  | Base64 demo_bytes
  | Json_obj "(string \<times> demo_text) list"
  | Json_doc user_doc

text \<open>Reading a decimal numeral back.\<close>

definition digit_val :: "char \<Rightarrow> nat" where
  "digit_val c = length (takeWhile (\<lambda>d. d \<noteq> c) digit_chars)"

definition dec_val :: "string \<Rightarrow> nat" where
  "dec_val s = foldl (\<lambda>a c. 10 * a + digit_val c) 0 s"

definition num_val :: "string \<Rightarrow> int" where
  "num_val s = (case s of [] \<Rightarrow> 0 | c # cs \<Rightarrow> if c = CHR ''-'' then - int (dec_val cs) else int (dec_val s))"

definition demo_decrypt :: "demo_bytes \<Rightarrow> demo_bytes \<Rightarrow> demo_bytes \<Rightarrow> demo_bytes \<Rightarrow> demo_bytes option" where
  "demo_decrypt key nonce tag cipher =
     (case cipher of
        Sealed k n plain \<Rightarrow> if k = key \<and> n = nonce \<and> tag = Tag k n plain then Some plain else None
      | _ \<Rightarrow> None)"

definition demo_date_value :: "jsval \<Rightarrow> int option" where
  "demo_date_value v =
     (case v of
        JStr s \<Rightarrow> if num_str (num_val s) = s then Some (num_val s) else None
      | JNum n \<Rightarrow> Some n
      | _ \<Rightarrow> None)"

definition demo_lib :: "(demo_text, demo_bytes) lib" where
  "demo_lib =
     \<lparr>scryptSync = Derived_key,
      aes_gcm_encrypt = (\<lambda>key nonce plain. Some (Sealed key nonce plain, Tag key nonce plain)),
      aes_gcm_decrypt = demo_decrypt,
      sha256_hex = (\<lambda>s. ''sha256:'' @ s),
      utf8_bytes = Utf8,
      utf8_text = (\<lambda>b. case b of Utf8 t \<Rightarrow> t | _ \<Rightarrow> Text ''''),
      base64_text = Base64,
      base64_bytes = (\<lambda>t. case t of Base64 b \<Rightarrow> b | _ \<Rightarrow> Octets ''''),
      json_stringify_obj = Json_obj,
      json_parse_obj = (\<lambda>t. case t of Json_obj obj \<Rightarrow> Some obj | _ \<Rightarrow> None),
      json_stringify_doc = (\<lambda>d. Json_doc (json_image d)),
      json_parse_doc = (\<lambda>t. case t of Json_doc d \<Rightarrow> Some d | _ \<Rightarrow> None),
      toISOString = num_str,
      date_value = demo_date_value\<rparr>"

text \<open>A fresh process on an empty data directory where no operation fails.\<close>

definition demo_state :: "(demo_text, demo_bytes) state" where
  "demo_state =
     \<lparr>MASTER_KEY = None, DEVICE_ID = None, files = Map.empty,
      read_fails = (\<lambda>p. False), write_fails = (\<lambda>p. False), unlink_fails = (\<lambda>p. False)\<rparr>"

text \<open>A session manager with the default timeout and one session, created at time 1000.\<close>

definition demo_manager :: SessionManager where
  "demo_manager =
     snd (createSession demo_lib (new_SessionManager None) 1000 ''9f'' 1000 1000 ''u1'')"

definition demo_token :: string where
  "demo_token = fst (createSession demo_lib (new_SessionManager None) 1000 ''9f'' 1000 1000 ''u1'')"

text \<open>A user, the readings of one call of \<^verbatim>\<open>addRecord\<close> at time \<open>t\<close>, and a note.\<close>

definition demo_user :: string where
  "demo_user = ''5511999999999@s.whatsapp.net''"

definition demo_inputs :: "int \<Rightarrow> demo_bytes add_inputs" where
  "demo_inputs t =
     \<lparr>load_now = (t, t), id_now = t, id_random = ''k3x9q2m1z'', stamp_now = t,
      today = \<lparr>getFullYear = 2025, getMonth = 0, getDate = 15\<rparr>,
      save_now = t, save_nonce = Octets ''0123456789abcdef''\<rparr>"

definition demo_note :: "string \<Rightarrow> jsobj" where
  "demo_note content = [(''content'', JStr content)]"

text \<open>
  The data directory with one file for the user, the same with a file that cannot be
  read, with one that cannot be removed, and a directory that cannot be written.
\<close>

definition demo_file :: "demo_text \<Rightarrow> (demo_text, demo_bytes) state" where
  "demo_file content = demo_state\<lparr>files := [getUserDataPath demo_user \<mapsto> content]\<rparr>"

definition demo_unreadable :: "(demo_text, demo_bytes) state" where
  "demo_unreadable = (demo_file (Text ''{}''))\<lparr>read_fails := (\<lambda>p. True)\<rparr>"

definition demo_readonly :: "(demo_text, demo_bytes) state" where
  "demo_readonly = demo_state\<lparr>write_fails := (\<lambda>p. True)\<rparr>"

definition demo_document :: "jsobj list \<Rightarrow> user_doc" where
  "demo_document rs =
     \<lparr>userId = sanitizePhoneNumber demo_user, records = rs,
      metadata = Some [(''createdAt'', JStr ''1000''), (''lastUpdate'', JStr ''1000''),
                       (''totalRecords'', JNum (int (length rs)))]\<rparr>"

definition demo_locked :: "(demo_text, demo_bytes) state" where
  "demo_locked =
     (demo_file (Json_doc (demo_document [demo_note ''kept''])))\<lparr>unlink_fails := (\<lambda>p. True)\<rparr>"

text \<open>A library whose cipher always throws.\<close>

definition demo_lib_no_cipher :: "(demo_text, demo_bytes) lib" where
  "demo_lib_no_cipher = demo_lib\<lparr>aes_gcm_encrypt := (\<lambda>key nonce plain. None)\<rparr>"

text \<open>A partial record that brings its own id and timestamp.\<close>

definition demo_own :: jsobj where
  "demo_own = [(''id'', JStr ''my-id''), (''timestamp'', JStr ''1999''), (''content'', JStr ''dated by me'')]"

text \<open>A record with a given date, and the local date of a reading of the clock.\<close>

definition demo_dated :: "string \<Rightarrow> jsobj" where
  "demo_dated day = [(''date'', JStr day), (''category'', JStr ''sintomas''), (''content'', JStr ''x'')]"

definition demo_today :: date where
  "demo_today = \<lparr>getFullYear = 2025, getMonth = 0, getDate = 5\<rparr>"

section \<open>A second instance, on bytes\<close>
























section \<open>Verification: the credential format check\<close>

lemma in_lang_Cat: "w \<in> lang (Cat r s) \<longleftrightarrow> (\<exists>u v. w = u @ v \<and> u \<in> lang r \<and> v \<in> lang s)"
  by auto

lemma in_lang_Class: "w \<in> lang (Class cs) \<longleftrightarrow> (\<exists>c. w = [c] \<and> c \<in> set cs)"
  by auto

lemma nullable_lang: "nullable r \<longleftrightarrow> [] \<in> lang r"
  by (induction r) auto

lemma deriv_lang: "w \<in> lang (deriv c r) \<longleftrightarrow> c # w \<in> lang r"
proof (induction r arbitrary: w)
  case (Cat r s)
  have "c # w \<in> lang (Cat r s) \<longleftrightarrow>
        (\<exists>u v. c # w = u @ v \<and> u \<in> lang r \<and> v \<in> lang s)"
    by (rule in_lang_Cat)
  also have "\<dots> \<longleftrightarrow> ([] \<in> lang r \<and> c # w \<in> lang s) \<or>
        (\<exists>u' v. w = u' @ v \<and> c # u' \<in> lang r \<and> v \<in> lang s)"
    by (simp add: Cons_eq_append_conv ex_disj_distrib conj_disj_distribR) blast
  also have "\<dots> \<longleftrightarrow> (nullable r \<and> w \<in> lang (deriv c s)) \<or> w \<in> lang (Cat (deriv c r) s)"
    by (simp only: in_lang_Cat Cat.IH nullable_lang)
  also have "\<dots> \<longleftrightarrow> w \<in> lang (deriv c (Cat r s))"
    by (simp del: lang.simps(5) add: in_lang_Cat) blast
  finally show ?case by simp
qed auto

lemma matches_lang: "matches r w \<longleftrightarrow> w \<in> lang r"
  by (induction w arbitrary: r) (simp_all add: nullable_lang deriv_lang)

lemma in_lang_Class_Cat:
  "w \<in> lang (Cat (Class cs) k) \<longleftrightarrow> (\<exists>c v. w = c # v \<and> c \<in> set cs \<and> v \<in> lang k)"
proof
  assume "w \<in> lang (Cat (Class cs) k)"
  then obtain u v where "w = u @ v" "u \<in> lang (Class cs)" "v \<in> lang k"
    unfolding in_lang_Cat by blast
  moreover then obtain c where "u = [c]" "c \<in> set cs"
    unfolding in_lang_Class by blast
  ultimately show "\<exists>c v. w = c # v \<and> c \<in> set cs \<and> v \<in> lang k" by simp
next
  assume "\<exists>c v. w = c # v \<and> c \<in> set cs \<and> v \<in> lang k"
  then obtain c v where cv: "w = c # v" "c \<in> set cs" "v \<in> lang k" by blast
  have "w = [c] @ v" using cv by simp
  moreover have "[c] \<in> lang (Class cs)" using cv unfolding in_lang_Class by blast
  ultimately show "w \<in> lang (Cat (Class cs) k)"
    unfolding in_lang_Cat using cv(3) by blast
qed

lemma in_lang_at_most:
  "w \<in> lang (at_most n (Class cs)) \<longleftrightarrow> length w \<le> n \<and> set w \<subseteq> set cs"
proof (induction n arbitrary: w)
  case 0
  show ?case by auto
next
  case (Suc n)
  have "w \<in> lang (at_most (Suc n) (Class cs)) \<longleftrightarrow>
        w = [] \<or> w \<in> lang (Cat (Class cs) (at_most n (Class cs)))"
    by (auto simp del: lang.simps(5))
  also have "\<dots> \<longleftrightarrow> length w \<le> Suc n \<and> set w \<subseteq> set cs"
    unfolding in_lang_Class_Cat Suc.IH by (cases w) auto
  finally show ?case .
qed

lemma in_lang_exactly_then:
  "w \<in> lang (exactly_then n (Class cs) k) \<longleftrightarrow>
     n \<le> length w \<and> set (take n w) \<subseteq> set cs \<and> drop n w \<in> lang k"
proof (induction n arbitrary: w)
  case 0
  show ?case by simp
next
  case (Suc n)
  have "w \<in> lang (exactly_then (Suc n) (Class cs) k) \<longleftrightarrow>
        w \<in> lang (Cat (Class cs) (exactly_then n (Class cs) k))"
    by simp
  also have "\<dots> \<longleftrightarrow> Suc n \<le> length w \<and> set (take (Suc n) w) \<subseteq> set cs \<and> drop (Suc n) w \<in> lang k"
    unfolding in_lang_Class_Cat Suc.IH by (cases w) auto
  finally show ?case .
qed

lemma in_lang_repeat:
  assumes "lo \<le> hi"
  shows "w \<in> lang (repeat lo hi (Class cs)) \<longleftrightarrow>
           lo \<le> length w \<and> length w \<le> hi \<and> set w \<subseteq> set cs"
proof -
  have "set w = set (take lo w) \<union> set (drop lo w)"
    by (metis append_take_drop_id set_append)
  then show ?thesis
    using assms unfolding repeat_def in_lang_exactly_then in_lang_at_most by auto
qed

text \<open>
  Claim C8.  \<^verbatim>\<open>isValidPIN(pin)\<close> is true exactly for the strings of four, five or six ASCII
  digits, and false for every other string: the empty string, a string with a letter or
  any other character that is not a digit, a string of three or fewer digits, a string of
  seven or more digits.
\<close>

theorem isValidPIN_iff:
  "isValidPIN pin \<longleftrightarrow> (length pin \<in> {4, 5, 6} \<and> (\<forall>c \<in> set pin. is_digit c))"
proof -
  have digits: "set pin \<subseteq> set digit_chars \<longleftrightarrow> (\<forall>c \<in> set pin. is_digit c)"
    unfolding is_digit_def by (rule subset_eq)
  have len: "4 \<le> length pin \<and> length pin \<le> 6 \<longleftrightarrow> length pin \<in> {4, 5, 6}"
    by auto
  have "isValidPIN pin \<longleftrightarrow> pin \<in> lang (repeat 4 6 (Class digit_chars))"
    unfolding isValidPIN_def digit_class_def by (rule matches_lang)
  also have "\<dots> \<longleftrightarrow> (4 \<le> length pin \<and> length pin \<le> 6) \<and> set pin \<subseteq> set digit_chars"
    by (simp add: in_lang_repeat)
  also have "\<dots> \<longleftrightarrow> length pin \<in> {4, 5, 6} \<and> (\<forall>c \<in> set pin. is_digit c)"
    by (simp only: digits len)
  finally show ?thesis .
qed

text \<open>The theorem at six inputs: two valid PINs and the four kinds of invalid ones.\<close>

theorem isValidPIN_iff_witness:
  "isValidPIN ''1234'' \<and> isValidPIN ''123456'' \<and> \<not> isValidPIN '''' \<and> \<not> isValidPIN ''12a4''
   \<and> \<not> isValidPIN ''123'' \<and> \<not> isValidPIN ''1234567''"
  using isValidPIN_iff[of "''1234''"] isValidPIN_iff[of "''123456''"] isValidPIN_iff[of "''''"]
   isValidPIN_iff[of "''12a4''"] isValidPIN_iff[of "''123''"] isValidPIN_iff[of "''1234567''"]
  by (simp add: is_digit_def digit_chars_def)

section \<open>Verification: encryption\<close>

lemma getMasterKey_cached:
  "MASTER_KEY (snd (getMasterKey L s)) = Some (fst (getMasterKey L s))"
  by (simp add: getMasterKey_def Let_def split: option.split)



lemma decrypt_after_encrypt:
  assumes "codecs_invert L" and "aead_correct L"
  shows "\<exists>blob s1. encryptData L s nonce plaintext = (Inr blob, s1) \<and>
           MASTER_KEY s1 \<noteq> None \<and>
           (\<forall>s2. MASTER_KEY s2 = MASTER_KEY s1 \<longrightarrow> decryptData L s2 blob = (Inr plaintext, s2))"
proof -
  obtain key s1 where k: "getMasterKey L s = (key, s1)" by (cases "getMasterKey L s")
  from assms(2) obtain cipher tag where
    enc: "aes_gcm_encrypt L key nonce (utf8_bytes L plaintext) = Some (cipher, tag)" and
    dec: "aes_gcm_decrypt L key nonce tag cipher = Some (utf8_bytes L plaintext)"
    unfolding aead_correct_def by blast
  have b64: "\<And>b. base64_bytes L (base64_text L b) = b"
    and utf: "\<And>t. utf8_text L (utf8_bytes L t) = t"
    and json: "\<And>obj. json_parse_obj L (json_stringify_obj L obj) = Some obj"
    using assms(1) unfolding codecs_invert_def by auto
  define blob where "blob = base64_text L (utf8_bytes L (json_stringify_obj L
      [(''iv'', base64_text L nonce), (''authTag'', base64_text L tag),
       (''encrypted'', base64_text L cipher)]))"
  have e: "encryptData L s nonce plaintext = (Inr blob, s1)"
    by (simp add: encryptData_def k enc blob_def)
  have cached: "MASTER_KEY s1 = Some key"
    using getMasterKey_cached[of L s] by (simp add: k)
  have "decryptData L s2 blob = (Inr plaintext, s2)" if "MASTER_KEY s2 = MASTER_KEY s1" for s2
  proof -
    have "getMasterKey L s2 = (key, s2)" using that cached by (simp add: getMasterKey_def)
    then show ?thesis
      by (simp add: decryptData_def blob_def b64 utf json dec)
  qed
  with e cached show ?thesis by auto
qed



section \<open>Verification: sessions\<close>

text \<open>
  Claim C7.  \<^verbatim>\<open>validateSession(userId, token)\<close> returns false when there is no session for
  the user, and false when the stored token differs from the one supplied.  When the
  idle time (now minus \<^verbatim>\<open>lastActivity\<close>) is at most the timeout it returns true and sets
  \<^verbatim>\<open>lastActivity\<close> to now.  Otherwise it destroys the session and returns false, and every
  later validation with the same token returns false as well.
\<close>

theorem validateSession_cases:
  "(sessions sm uid = None \<longrightarrow> validateSession sm now uid tok = (False, sm)) \<and>
   (\<forall>se. sessions sm uid = Some se \<and> token se \<noteq> tok \<longrightarrow>
      validateSession sm now uid tok = (False, sm)) \<and>
   (\<forall>se. sessions sm uid = Some se \<and> token se = tok \<and> now - lastActivity se \<le> timeoutMs sm \<longrightarrow>
      validateSession sm now uid tok =
        (True, sm\<lparr>sessions := (sessions sm)(uid \<mapsto> se\<lparr>lastActivity := now\<rparr>)\<rparr>)) \<and>
   (\<forall>se. sessions sm uid = Some se \<and> token se = tok \<and> timeoutMs sm < now - lastActivity se \<longrightarrow>
      validateSession sm now uid tok = (False, destroySession sm uid) \<and>
      sessions (destroySession sm uid) uid = None \<and>
      (\<forall>later. validateSession (destroySession sm uid) later uid tok
                 = (False, destroySession sm uid)))"
  by (auto simp: validateSession_def destroySession_def Let_def)

lemma demo_manager_session:
  "sessions demo_manager ''u1'' =
     Some \<lparr>session_userId = ''u1'', token = demo_token, createdAt = 1000, lastActivity = 1000\<rparr>"
  "timeoutMs demo_manager = 1800000"
  by (simp_all add: demo_manager_def demo_token_def createSession_def new_SessionManager_def Let_def)

lemma demo_token_text: "demo_token = ''sha256:u1-'' @ num_str 1000 @ ''-9f''"
  by (simp add: demo_token_def createSession_def generateSessionToken_def demo_lib_def Let_def)

text \<open>
  The scenario of the specification: no session yet, a wrong token, the right token at
  once and at exactly the timeout, the right token one millisecond past the timeout, and
  the same token again after that.
\<close>

theorem validateSession_cases_witness:
  "validateSession (new_SessionManager None) 1000 ''u1'' demo_token = (False, new_SessionManager None) \<and>
   validateSession demo_manager 1000 ''u1'' ''wrong-token'' = (False, demo_manager) \<and>
   fst (validateSession demo_manager 1000 ''u1'' demo_token) = True \<and>
   fst (validateSession demo_manager 1801000 ''u1'' demo_token) = True \<and>
   validateSession demo_manager 1801001 ''u1'' demo_token = (False, destroySession demo_manager ''u1'') \<and>
   fst (validateSession (destroySession demo_manager ''u1'') 1801002 ''u1'' demo_token) = False"
  using validateSession_cases [of "new_SessionManager None" "''u1''" 1000 demo_token]
    validateSession_cases [of demo_manager "''u1''" 1000 "''wrong-token''"]
    validateSession_cases [of demo_manager "''u1''" 1000 demo_token]
    validateSession_cases [of demo_manager "''u1''" 1801000 demo_token]
    validateSession_cases [of demo_manager "''u1''" 1801001 demo_token]
  by (simp add: demo_manager_session demo_token_text new_SessionManager_def)

section \<open>Verification: the record store\<close>

lemma field_update: "field (AList.update k v obj) k' = (if k' = k then v else field obj k')"
  by (simp add: field_def update_conv')

lemma getMasterKey_frame:
  "files (snd (getMasterKey L s)) = files s"
  "read_fails (snd (getMasterKey L s)) = read_fails s"
  "write_fails (snd (getMasterKey L s)) = write_fails s"
  "unlink_fails (snd (getMasterKey L s)) = unlink_fails s"
  "DEVICE_ID (snd (getMasterKey L s)) = DEVICE_ID s"
  by (simp_all add: getMasterKey_def Let_def split: option.split)

lemma encryptData_frame:
  "files (snd (encryptData L s nonce t)) = files s"
  "read_fails (snd (encryptData L s nonce t)) = read_fails s"
  "write_fails (snd (encryptData L s nonce t)) = write_fails s"
  "unlink_fails (snd (encryptData L s nonce t)) = unlink_fails s"
  using getMasterKey_frame[of L s]
  by (auto simp: encryptData_def Let_def split: prod.split option.split)

lemma decryptData_frame:
  "files (snd (decryptData L s t)) = files s"
  "read_fails (snd (decryptData L s t)) = read_fails s"
  "write_fails (snd (decryptData L s t)) = write_fails s"
  "unlink_fails (snd (decryptData L s t)) = unlink_fails s"
  using getMasterKey_frame[of L s]
  by (auto simp: decryptData_def Let_def split: prod.split option.split)

text \<open>
  Claim C4.  \<^verbatim>\<open>loadUserData(userId, encrypted)\<close> never throws: its result is a document in
  every case.  When there is no file for the sanitised id it is the empty document (no
  records, \<^verbatim>\<open>totalRecords\<close> 0, \<^verbatim>\<open>createdAt\<close> and \<^verbatim>\<open>lastUpdate\<close> of the moment).  When reading
  the file, decrypting it or parsing it fails, it is an empty document whose metadata
  carries the \<^verbatim>\<open>error\<close> marker in addition.  Otherwise it is the parsed document.
\<close>

theorem loadUserData_degrades:
  "(\<not> existsSync s (getUserDataPath uid) \<longrightarrow>
      loadUserData L s now uid encrypted = (empty_document L now uid, s)) \<and>
   (existsSync s (getUserDataPath uid) \<and> isl (readFileSync s (getUserDataPath uid)) \<longrightarrow>
      fst (loadUserData L s now uid encrypted) = error_document L now uid) \<and>
   (\<forall>content. existsSync s (getUserDataPath uid) \<and>
        readFileSync s (getUserDataPath uid) = Inr content \<and>
        encrypted \<and> isl (fst (decryptData L s content)) \<longrightarrow>
      fst (loadUserData L s now uid encrypted) = error_document L now uid) \<and>
   (\<forall>content text. existsSync s (getUserDataPath uid) \<and>
        readFileSync s (getUserDataPath uid) = Inr content \<and>
        (if encrypted then fst (decryptData L s content) = Inr text else text = content) \<and>
        json_parse_doc L text = None \<longrightarrow>
      fst (loadUserData L s now uid encrypted) = error_document L now uid) \<and>
   (\<forall>content text data. existsSync s (getUserDataPath uid) \<and>
        readFileSync s (getUserDataPath uid) = Inr content \<and>
        (if encrypted then fst (decryptData L s content) = Inr text else text = content) \<and>
        json_parse_doc L text = Some data \<longrightarrow>
      fst (loadUserData L s now uid encrypted) = data) \<and>
   records (empty_document L now uid) = [] \<and>
   metadata (empty_document L now uid) =
     Some [(''createdAt'', JStr (toISOString L (fst now))),
           (''lastUpdate'', JStr (toISOString L (snd now))),
           (''totalRecords'', JNum 0)] \<and>
   records (error_document L now uid) = [] \<and>
   metadata (error_document L now uid) =
     Some [(''createdAt'', JStr (toISOString L (fst now))),
           (''lastUpdate'', JStr (toISOString L (snd now))),
           (''totalRecords'', JNum 0),
           (''error'', JStr ''Falha ao carregar dados anteriores'')]"
  by (auto simp: loadUserData_def Let_def empty_document_def error_document_def
           split: sum.splits prod.splits option.splits)

text \<open>
  Claim C5.  \<^verbatim>\<open>saveUserData(userId, data, encrypted)\<close> sets \<^verbatim>\<open>metadata.totalRecords\<close> to the
  number of records and \<^verbatim>\<open>metadata.lastUpdate\<close> to the current time before it writes.  So
  after every call that returns true the file holds the text (encrypted or not) of a
  document whose \<^verbatim>\<open>totalRecords\<close> is the length of its \<^verbatim>\<open>records\<close>.  When writing or
  encrypting fails it returns false, without throwing, and leaves the files as they were.
\<close>

theorem saveUserData_persists:
  "(saveUserData L s now nonce uid data encrypted = (True, s') \<longrightarrow>
      (\<exists>text. files s' (getUserDataPath uid) = Some text \<and>
              stored_as L s nonce encrypted (with_metadata L now data) text)) \<and>
   (\<exists>m. metadata (with_metadata L now data) = Some m \<and>
        field m ''totalRecords'' = JNum (int (length (records (with_metadata L now data)))) \<and>
        field m ''lastUpdate'' = JStr (toISOString L now)) \<and>
   records (with_metadata L now data) = records data \<and>
   (write_fails s (getUserDataPath uid) \<longrightarrow>
      fst (saveUserData L s now nonce uid data encrypted) = False) \<and>
   (encrypted \<and> isl (fst (encryptData L s nonce (json_stringify_doc L (with_metadata L now data)))) \<longrightarrow>
      fst (saveUserData L s now nonce uid data encrypted) = False) \<and>
   (fst (saveUserData L s now nonce uid data encrypted) = False \<longrightarrow>
      files (snd (saveUserData L s now nonce uid data encrypted)) = files s)"
proof -
  have a: "saveUserData L s now nonce uid data encrypted = (True, s') \<longrightarrow>
      (\<exists>text. files s' (getUserDataPath uid) = Some text \<and>
              stored_as L s nonce encrypted (with_metadata L now data) text)"
    by (auto simp: saveUserData_def stored_as_def writeFileSync_def Let_def
             split: sum.splits prod.splits if_splits)
  have b: "\<exists>m. metadata (with_metadata L now data) = Some m \<and>
        field m ''totalRecords'' = JNum (int (length (records (with_metadata L now data)))) \<and>
        field m ''lastUpdate'' = JStr (toISOString L now)"
    by (simp add: with_metadata_def Let_def field_update)
  have c: "records (with_metadata L now data) = records data"
    by (simp add: with_metadata_def Let_def)
  have d: "write_fails s (getUserDataPath uid) \<longrightarrow>
      fst (saveUserData L s now nonce uid data encrypted) = False"
    using encryptData_frame(3)[of L s nonce "json_stringify_doc L (with_metadata L now data)"]
    by (auto simp: saveUserData_def writeFileSync_def Let_def split: sum.splits prod.splits)
  have e: "encrypted \<and> isl (fst (encryptData L s nonce (json_stringify_doc L (with_metadata L now data)))) \<longrightarrow>
      fst (saveUserData L s now nonce uid data encrypted) = False"
    by (auto simp: saveUserData_def Let_def split: sum.splits prod.splits)
  have f: "fst (saveUserData L s now nonce uid data encrypted) = False \<longrightarrow>
      files (snd (saveUserData L s now nonce uid data encrypted)) = files s"
    using encryptData_frame(1)[of L s nonce "json_stringify_doc L (with_metadata L now data)"]
    by (auto simp: saveUserData_def writeFileSync_def Let_def split: sum.splits prod.splits if_splits)
  from a b c d e f show ?thesis by blast
qed

text \<open>
  Claim C9, as amended.  \<^verbatim>\<open>deleteUserData(userId)\<close> removes the user's file and returns
  true when the file existed and removing it does not fail; it returns false when no
  file existed, and also when the removal fails, the file then staying in place.  After
  a call that returned true, or when there was no file, \<^verbatim>\<open>loadUserData\<close> for the same user
  returns the empty document, with no records and \<^verbatim>\<open>totalRecords\<close> 0.
\<close>

theorem deleteUserData_cases:
  "(existsSync s (getUserDataPath uid) \<and> \<not> unlink_fails s (getUserDataPath uid) \<longrightarrow>
      fst (deleteUserData s uid) = True \<and>
      \<not> existsSync (snd (deleteUserData s uid)) (getUserDataPath uid)) \<and>
   (\<not> existsSync s (getUserDataPath uid) \<longrightarrow> deleteUserData s uid = (False, s)) \<and>
   (existsSync s (getUserDataPath uid) \<and> unlink_fails s (getUserDataPath uid) \<longrightarrow>
      deleteUserData s uid = (False, s)) \<and>
   (fst (deleteUserData s uid) = True \<or> \<not> existsSync s (getUserDataPath uid) \<longrightarrow>
      fst (loadUserData L (snd (deleteUserData s uid)) now uid encrypted) = empty_document L now uid \<and>
      records (empty_document L now uid) = [] \<and>
      (\<exists>m. metadata (empty_document L now uid) = Some m \<and> field m ''totalRecords'' = JNum 0))"
  by (auto simp: deleteUserData_def unlinkSync_def existsSync_def loadUserData_def Let_def
        empty_document_def field_def split: option.splits)

lemma map_of_spread:
  "distinct (map fst src) \<Longrightarrow> map_of (spread target src) = map_of target ++ map_of src"
proof (induction src arbitrary: target)
  case Nil
  then show ?case by (simp add: spread_def)
next
  case (Cons kv src)
  obtain k v where kv: "kv = (k, v)" by (cases kv)
  from Cons.prems have k: "k \<notin> dom (map_of src)" and d: "distinct (map fst src)"
    by (auto simp: kv dom_map_of_conv_image_fst)
  have "map_of (spread target (kv # src)) = map_of (spread (AList.update k v target) src)"
    by (simp add: spread_def kv)
  also have "\<dots> = (map_of target)(k \<mapsto> v) ++ map_of src"
    by (simp only: Cons.IH[OF d] update_conv')
  also have "\<dots> = (map_of target ++ map_of src)(k \<mapsto> v)"
    using k by (rule map_add_upd_left)
  also have "\<dots> = map_of target ++ map_of (kv # src)"
    by (simp add: kv)
  finally show ?case .
qed

lemma field_spread:
  "distinct (map fst src) \<Longrightarrow>
   field (spread target src) k = (case map_of src k of None \<Rightarrow> field target k | Some v \<Rightarrow> v)"
  by (simp add: field_def map_of_spread map_add_def split: option.split)

subsection \<open>Sorting\<close>

lemma set_insert_sorted: "set (insert_sorted cmp x ys) = insert x (set ys)"
  by (induction ys) auto

lemma set_array_sort: "set (array_sort cmp xs) = set xs"
  by (induction xs) (simp_all add: array_sort_def set_insert_sorted)




subsection \<open>Reading back what was saved\<close>








lemma loadUserData_frame:
  "files (snd (loadUserData L s now uid encrypted)) = files s"
  "read_fails (snd (loadUserData L s now uid encrypted)) = read_fails s"
  "write_fails (snd (loadUserData L s now uid encrypted)) = write_fails s"
  "unlink_fails (snd (loadUserData L s now uid encrypted)) = unlink_fails s"
proof -
  have *: "files x = files s \<and> read_fails x = read_fails s \<and>
           write_fails x = write_fails s \<and> unlink_fails x = unlink_fails s"
    if "decryptData L s c = (r, x)" for c r x
    using decryptData_frame[of L s c] that by simp
  show "files (snd (loadUserData L s now uid encrypted)) = files s"
    "read_fails (snd (loadUserData L s now uid encrypted)) = read_fails s"
    "write_fails (snd (loadUserData L s now uid encrypted)) = write_fails s"
    "unlink_fails (snd (loadUserData L s now uid encrypted)) = unlink_fails s"
    by (auto simp: loadUserData_def Let_def dest: * split: sum.splits prod.splits option.splits)
qed

lemma saveUserData_written:
  assumes "saveUserData L s now nonce uid data encrypted = (True, s')"
  shows "\<exists>text. files s' (getUserDataPath uid) = Some text \<and>
           stored_as L s nonce encrypted (with_metadata L now data) text"
  using assms
  by (auto simp: saveUserData_def stored_as_def writeFileSync_def Let_def
           split: sum.splits prod.splits if_splits)

lemma saveUserData_succeeds:
  assumes "\<not> write_fails s (getUserDataPath uid)"
    and "encrypted \<longrightarrow> codecs_invert L \<and> aead_correct L"
  shows "fst (saveUserData L s now nonce uid data encrypted) = True"
proof (cases encrypted)
  case False
  with assms show ?thesis by (simp add: saveUserData_def writeFileSync_def Let_def)
next
  case True
  with assms(2) obtain blob s1 where
    e: "encryptData L s nonce (json_stringify_doc L (with_metadata L now data)) = (Inr blob, s1)"
    using decrypt_after_encrypt[of L s nonce "json_stringify_doc L (with_metadata L now data)"] by blast
  have "write_fails s1 = write_fails s"
    using encryptData_frame(3)[of L s nonce "json_stringify_doc L (with_metadata L now data)"] e by simp
  with assms(1) True e show ?thesis
    by (simp add: saveUserData_def writeFileSync_def Let_def)
qed


subsection \<open>Adding records\<close>






subsection \<open>Dates and their texts\<close>

lemma digit_char_less: "i < 10 \<Longrightarrow> j < 10 \<Longrightarrow> digit_char i < digit_char j \<longleftrightarrow> i < j"
proof -
  have "\<forall>i \<in> {..<10}. \<forall>j \<in> {..<10}. digit_char i < digit_char j \<longleftrightarrow> i < (j::nat)"
    unfolding lessThan_nat_numeral arith_simps pred_numeral_simps lessThan_Suc lessThan_0
    by (simp add: digit_char_def digit_chars_def)
  then show "i < 10 \<Longrightarrow> j < 10 \<Longrightarrow> digit_char i < digit_char j \<longleftrightarrow> i < j" by auto
qed

lemma length_digits: "length (digits k n) = k"
  by (induction k arbitrary: n) simp_all

lemma append_less_same_length:
  fixes a b :: "'a::linorder list"
  assumes "length a = length b"
  shows "a @ x < b @ y \<longleftrightarrow> a < b \<or> (a = b \<and> x < y)"
  using assms by (induction a b rule: list_induct2) auto

lemma div_mod_less_iff:
  fixes n m :: nat
  shows "n < m \<longleftrightarrow> n div 10 < m div 10 \<or> (n div 10 = m div 10 \<and> n mod 10 < m mod 10)"
proof -
  define a b c d where "a = n div 10" and "b = n mod 10" and "c = m div 10" and "d = m mod 10"
  have n: "n = 10 * a + b" and m: "m = 10 * c + d" and b: "b < 10" and d: "d < 10"
    by (simp_all add: a_def b_def c_def d_def)
  have "10 * a + b < 10 * c + d \<longleftrightarrow> a < c \<or> (a = c \<and> b < d)"
    using b d by auto
  then show ?thesis
    unfolding a_def[symmetric] b_def[symmetric] c_def[symmetric] d_def[symmetric] n[symmetric] m[symmetric] .
qed

lemma div10_bounds:
  fixes a n :: nat
  shows "10 * a \<le> n \<Longrightarrow> a \<le> n div 10" and "n < 10 * a \<Longrightarrow> n div 10 < a"
  by linarith+

lemma digits_less:
  "n < 10 ^ k \<Longrightarrow> m < 10 ^ k \<Longrightarrow> digits k n < digits k m \<longleftrightarrow> n < m"
proof (induction k arbitrary: n m)
  case 0
  then show ?case by simp
next
  case (Suc k)
  then have d: "n div 10 < 10 ^ k" "m div 10 < 10 ^ k"
    using div10_bounds(2)[of n "10 ^ k"] div10_bounds(2)[of m "10 ^ k"] by simp_all
  have inj: "digits k (n div 10) = digits k (m div 10) \<longleftrightarrow> n div 10 = m div 10"
    using Suc.IH[OF d] Suc.IH[OF d(2) d(1)] by (metis less_irrefl nat_neq_iff)
  have "digits (Suc k) n < digits (Suc k) m \<longleftrightarrow>
        digits k (n div 10) < digits k (m div 10) \<or>
        (digits k (n div 10) = digits k (m div 10) \<and> digit_char (n mod 10) < digit_char (m mod 10))"
    by (simp add: append_less_same_length length_digits)
  also have "\<dots> \<longleftrightarrow> n div 10 < m div 10 \<or> (n div 10 = m div 10 \<and> n mod 10 < m mod 10)"
    by (simp add: Suc.IH[OF d] inj digit_char_less)
  also have "\<dots> \<longleftrightarrow> n < m" by (rule div_mod_less_iff[symmetric])
  finally show ?case .
qed

lemma digits_inj:
  "n < 10 ^ k \<Longrightarrow> m < 10 ^ k \<Longrightarrow> digits k n = digits k m \<longleftrightarrow> n = m"
  using digits_less[of n k m] digits_less[of m k n] by (metis less_irrefl nat_neq_iff)

lemma dec_str_digits:
  "10 ^ k \<le> n \<Longrightarrow> n < 10 ^ Suc k \<Longrightarrow> dec_str n = digits (Suc k) n"
proof (induction k arbitrary: n)
  case 0
  then show ?case by (simp add: dec_str.simps[of n])
next
  case (Suc k)
  have "10 ^ k \<le> n div 10" "n div 10 < 10 ^ Suc k"
    using Suc.prems div10_bounds[of "10 ^ k" n] div10_bounds(2)[of n "10 ^ Suc k"] by simp_all
  from Suc.IH[OF this] have "dec_str (n div 10) = digits (Suc k) (n div 10)" .
  moreover have "(10::nat) \<le> 10 * 10 ^ k" by simp
  with Suc.prems(1) have "\<not> n < 10" unfolding power_Suc by linarith
  ultimately show ?case by (simp add: dec_str.simps[of n])
qed


lemma dec_str_year:
  assumes "1000 \<le> y" and "y \<le> 9999"
  shows "num_str y = digits 4 (nat y)"
proof -
  have "10 ^ 3 \<le> nat y" "nat y < 10 ^ Suc 3" using assms by simp_all
  from dec_str_digits[OF this] show ?thesis using assms by (simp add: num_str_def)
qed

lemma digit_char_0: "digit_char 0 = CHR ''0''"
  by (simp add: digit_char_def digit_chars_def)

lemma padStart2_digits:
  assumes "k < 100"
  shows "padStart2 (num_str (int k)) = digits 2 k"
proof (cases "k < 10")
  case True
  then have "dec_str k = [digit_char k]" by (simp add: dec_str.simps[of k])
  moreover have "digits 2 k = [digit_char 0, digit_char k]"
    using True by (simp add: numeral_2_eq_2)
  ultimately show ?thesis by (simp add: padStart2_def num_str_def digit_char_0)
next
  case False
  then have "10 ^ 1 \<le> k" "k < 10 ^ Suc 1" using assms by simp_all
  from dec_str_digits[OF this] have "dec_str k = digits 2 k" by (simp add: numeral_2_eq_2)
  then show ?thesis by (simp add: padStart2_def num_str_def length_digits)
qed

lemma formatDate_digits:
  assumes "four_digit_year d" and "getMonth d < 12" and "getDate d < 100"
  shows "formatDate d =
           digits 4 (nat (getFullYear d)) @ CHR ''-'' # digits 2 (getMonth d + 1) @ CHR ''-'' #
           digits 2 (getDate d)"
proof -
  have y: "num_str (getFullYear d) = digits 4 (nat (getFullYear d))"
    using assms(1) by (simp add: dec_str_year four_digit_year_def)
  have m: "padStart2 (num_str (int (getMonth d + 1))) = digits 2 (getMonth d + 1)"
    by (rule padStart2_digits) (use assms(2) in simp)
  have dd: "padStart2 (num_str (int (getDate d))) = digits 2 (getDate d)"
    using assms(3) by (rule padStart2_digits)
  show ?thesis
    unfolding formatDate_def Let_def y m dd by simp
qed

lemma formatDate_less:
  assumes a: "four_digit_year a" "getMonth a < 12" "getDate a < 100"
    and b: "four_digit_year b" "getMonth b < 12" "getDate b < 100"
  shows "formatDate a < formatDate b \<longleftrightarrow> date_before a b"
proof -
  have "nat (getFullYear a) < 10000" "nat (getFullYear b) < 10000"
    using a(1) b(1) unfolding four_digit_year_def by linarith+
  then have y: "nat (getFullYear a) < 10 ^ 4" "nat (getFullYear b) < 10 ^ 4"
    by simp_all
  have m: "getMonth a + 1 < 10 ^ 2" "getMonth b + 1 < 10 ^ 2" using a(2) b(2) by simp_all
  have dd: "getDate a < 10 ^ 2" "getDate b < 10 ^ 2" using a(3) b(3) by simp_all
  have yy: "nat (getFullYear a) < nat (getFullYear b) \<longleftrightarrow> getFullYear a < getFullYear b"
    "nat (getFullYear a) = nat (getFullYear b) \<longleftrightarrow> getFullYear a = getFullYear b"
    using a(1) b(1) by (auto simp: four_digit_year_def)
  have l4: "length (digits 4 (nat (getFullYear a))) = length (digits 4 (nat (getFullYear b)))"
    and l2: "length (digits 2 (getMonth a + 1)) = length (digits 2 (getMonth b + 1))"
    by (simp_all add: length_digits)
  have "digits 2 (getDate a) < digits 2 (getDate b) \<longleftrightarrow> getDate a < getDate b"
    using dd by (rule digits_less)
  then show ?thesis
    unfolding formatDate_digits[OF a] formatDate_digits[OF b] date_before_def
      append_less_same_length[OF l4] Cons_less_Cons append_less_same_length[OF l2]
      digits_less[OF y] digits_inj[OF y] digits_less[OF m] digits_inj[OF m] yy
    by auto
qed

lemma days_in_month_bounds: "28 \<le> days_in_month y m" "days_in_month y m \<le> 31"
  by (simp_all add: days_in_month_def)

lemma prev_day_valid: "valid_date d \<Longrightarrow> valid_date (prev_day d)"
proof -
  assume v: "valid_date d"
  have dec: "days_in_month y 11 = 31" for y by (simp add: days_in_month_def)
  consider "1 < getDate d" | "\<not> 1 < getDate d" "0 < getMonth d"
    | "\<not> 1 < getDate d" "\<not> 0 < getMonth d" by blast
  then show ?thesis
  proof cases
    case 1
    with v show ?thesis by (auto simp: valid_date_def prev_day_def)
  next
    case 2
    have "getMonth d - 1 < 12" using v unfolding valid_date_def by linarith
    moreover have "1 \<le> days_in_month (getFullYear d) (getMonth d - 1)"
      using days_in_month_bounds(1)[of "getFullYear d" "getMonth d - 1"] by linarith
    ultimately show ?thesis using 2 by (simp add: valid_date_def prev_day_def)
  next
    case 3
    then show ?thesis by (simp add: valid_date_def prev_day_def dec)
  qed
qed

lemma prev_day_before: "valid_date d \<Longrightarrow> date_before (prev_day d) d"
proof -
  assume v: "valid_date d"
  consider "1 < getDate d" | "\<not> 1 < getDate d" "0 < getMonth d"
    | "\<not> 1 < getDate d" "\<not> 0 < getMonth d" by blast
  then show ?thesis
  proof cases
    case 1
    then show ?thesis by (simp add: prev_day_def date_before_def)
  next
    case 2
    then show ?thesis by (simp add: prev_day_def date_before_def)
  next
    case 3
    then show ?thesis by (simp add: prev_day_def date_before_def)
  qed
qed

lemma prev_day_year: "getFullYear (prev_day d) \<le> getFullYear d"
  by (simp add: prev_day_def)

lemma date_before_trans: "date_before a b \<Longrightarrow> date_before b c \<Longrightarrow> date_before a c"
  unfolding date_before_def by auto

lemma date_before_irrefl: "\<not> date_before a a"
  by (simp add: date_before_def)

lemma back_valid: "valid_date d \<Longrightarrow> valid_date ((prev_day ^^ n) d)"
  by (induction n) (simp_all add: prev_day_valid)

lemma back_year: "getFullYear ((prev_day ^^ n) d) \<le> getFullYear d"
proof (induction n)
  case 0
  show ?case by simp
next
  case (Suc n)
  have "getFullYear (prev_day ((prev_day ^^ n) d)) \<le> getFullYear ((prev_day ^^ n) d)"
    by (rule prev_day_year)
  with Suc show ?case by simp
qed

lemma back_before: "valid_date d \<Longrightarrow> 0 < n \<Longrightarrow> date_before ((prev_day ^^ n) d) d"
proof (induction n)
  case 0
  then show ?case by simp
next
  case (Suc n)
  have step: "date_before ((prev_day ^^ Suc n) d) ((prev_day ^^ n) d)"
    using prev_day_before[OF back_valid[OF Suc.prems(1), of n]] by simp
  show ?case
  proof (cases "n = 0")
    case True
    with step show ?thesis by simp
  next
    case False
    with Suc have "date_before ((prev_day ^^ n) d) d" by simp
    with step show ?thesis by (rule date_before_trans)
  qed
qed

lemma valid_date_two_digits: "valid_date d \<Longrightarrow> getMonth d < 12 \<and> getDate d < 100"
  using days_in_month_bounds(2)[of "getFullYear d" "getMonth d"]
  by (simp add: valid_date_def)

lemma formatDate_le:
  assumes "valid_date a" "four_digit_year a" "valid_date b" "four_digit_year b"
  shows "formatDate a \<le> formatDate b \<longleftrightarrow> \<not> date_before b a"
proof -
  have "formatDate b < formatDate a \<longleftrightarrow> date_before b a"
    using assms valid_date_two_digits by (intro formatDate_less) auto
  then show ?thesis by (simp add: not_less[symmetric])
qed

lemma week_window:
  assumes v: "valid_date current"
    and lo: "1000 \<le> getFullYear (setDate_minus 10 current)"
    and hi: "getFullYear current \<le> 9999"
  shows "formatDate (setDate_minus 7 current) \<le> formatDate current"
    and "formatDate (setDate_minus 7 current) \<le> formatDate (setDate_minus 3 current)"
    and "\<not> formatDate (setDate_minus 7 current) \<le> formatDate (setDate_minus 10 current)"
proof -
  let ?d3 = "(prev_day ^^ 3) current" and ?d7 = "(prev_day ^^ 7) current"
    and ?d10 = "(prev_day ^^ 10) current"
  have s: "setDate_minus 3 current = ?d3" "setDate_minus 7 current = ?d7"
    "setDate_minus 10 current = ?d10"
    by (simp_all add: setDate_minus_def)
  have "(prev_day ^^ (4 + 3)) current = (prev_day ^^ 4) ?d3"
    "(prev_day ^^ (3 + 7)) current = (prev_day ^^ 3) ?d7"
    by (simp_all only: funpow_add comp_apply)
  then have split: "?d7 = (prev_day ^^ 4) ?d3" "?d10 = (prev_day ^^ 3) ?d7"
    by simp_all
  have valid: "valid_date ?d3" "valid_date ?d7" "valid_date ?d10"
    using v by (simp_all add: back_valid)
  have years: "getFullYear ?d10 \<le> getFullYear ?d7" "getFullYear ?d7 \<le> getFullYear ?d3"
    "getFullYear ?d3 \<le> getFullYear current"
    using back_year[of 3 ?d7] back_year[of 4 ?d3] back_year[of 3 current]
    unfolding split[symmetric] by simp_all
  have four: "four_digit_year current" "four_digit_year ?d3" "four_digit_year ?d7"
    "four_digit_year ?d10"
    using years lo hi unfolding four_digit_year_def s by linarith+
  have b7: "date_before ?d7 current" using v by (simp add: back_before)
  have b73: "date_before ?d7 ?d3" unfolding split(1) using valid(1) by (simp add: back_before)
  have b107: "date_before ?d10 ?d7" unfolding split(2) using valid(2) by (simp add: back_before)
  have n1: "\<not> date_before current ?d7"
    using b7 date_before_trans date_before_irrefl by blast
  have n2: "\<not> date_before ?d3 ?d7"
    using b73 date_before_trans date_before_irrefl by blast
  show "formatDate (setDate_minus 7 current) \<le> formatDate current"
    unfolding s using n1 by (simp add: formatDate_le valid four v)
  show "formatDate (setDate_minus 7 current) \<le> formatDate (setDate_minus 3 current)"
    unfolding s using n2 by (simp add: formatDate_le valid four)
  show "\<not> formatDate (setDate_minus 7 current) \<le> formatDate (setDate_minus 10 current)"
    unfolding s using b107 by (simp add: formatDate_le valid four)
qed

subsection \<open>The small library meets the contracts\<close>









section \<open>Verification: order of the records\<close>





section \<open>Verification: fields supplied by the caller\<close>

lemma addRecord_stores:
  assumes add: "addRecord L s inp uid r encrypted = (True, s')"
  shows "\<exists>d written. files s' (getUserDataPath uid) = Some written \<and>
           stored_as L (snd (loadUserData L s (load_now inp) uid encrypted)) (save_nonce inp)
             encrypted d written \<and>
           newRecord L inp r \<in> set (records d)"
proof -
  obtain userData s1 where l: "loadUserData L s (load_now inp) uid encrypted = (userData, s1)"
    by (cases "loadUserData L s (load_now inp) uid encrypted")
  define doc where "doc = userData\<lparr>records :=
      array_sort (compare_timestamp L) (records userData @ [newRecord L inp r])\<rparr>"
  from add have "saveUserData L s1 (save_now inp) (save_nonce inp) uid doc encrypted = (True, s')"
    by (simp add: addRecord_def l doc_def Let_def)
  from saveUserData_written[OF this] obtain written where
    "files s' (getUserDataPath uid) = Some written"
    "stored_as L s1 (save_nonce inp) encrypted (with_metadata L (save_now inp) doc) written"
    by blast
  moreover have "newRecord L inp r \<in> set (records (with_metadata L (save_now inp) doc))"
    by (simp add: with_metadata_def doc_def Let_def set_array_sort)
  ultimately show ?thesis using l by auto
qed

lemma addRecord_succeeds:
  assumes "\<not> write_fails s (getUserDataPath uid)"
    and "encrypted \<longrightarrow> codecs_invert L \<and> aead_correct L"
  shows "fst (addRecord L s inp uid r encrypted) = True"
proof -
  obtain userData s1 where l: "loadUserData L s (load_now inp) uid encrypted = (userData, s1)"
    by (cases "loadUserData L s (load_now inp) uid encrypted")
  have "\<not> write_fails s1 (getUserDataPath uid)"
    using loadUserData_frame(3)[of L s "load_now inp" uid encrypted] l assms(1) by simp
  from saveUserData_succeeds[OF this assms(2)] show ?thesis
    by (simp add: addRecord_def l Let_def)
qed

text \<open>
  Claim C10.  In \<^verbatim>\<open>addRecord\<close> the caller's partial record is spread into the new record
  after the generated fields.  So a partial record that has an \<^verbatim>\<open>id\<close> or a \<^verbatim>\<open>timestamp\<close> of
  its own keeps them in the record that is stored, in place of the generated id and of
  the timestamp of the current instant; the generated values are used only when the
  caller leaves the field out.  The partial record is an object: each key occurs once.
\<close>

theorem caller_fields_override:
  assumes "distinct (map fst r)"
  shows "field (newRecord L inp r) ''id'' =
           (case map_of r ''id'' of
              None \<Rightarrow> JStr (generateRecordId (id_now inp) (id_random inp))
            | Some v \<Rightarrow> v) \<and>
         field (newRecord L inp r) ''timestamp'' =
           (case map_of r ''timestamp'' of
              None \<Rightarrow> JStr (toISOString L (stamp_now inp))
            | Some v \<Rightarrow> v) \<and>
         (addRecord L s inp uid r encrypted = (True, s') \<longrightarrow>
            (\<exists>d written. files s' (getUserDataPath uid) = Some written \<and>
               stored_as L (snd (loadUserData L s (load_now inp) uid encrypted)) (save_nonce inp)
                 encrypted d written \<and>
               newRecord L inp r \<in> set (records d)))"
proof -
  let ?base = "[(''id'', JStr (generateRecordId (id_now inp) (id_random inp))),
              (''timestamp'', JStr (toISOString L (stamp_now inp))),
              (''date'', if truthy (field r ''date'') then field r ''date''
                         else JStr (formatDate (today inp))),
              (''category'', if truthy (field r ''category'') then field r ''category''
                             else JStr ''observacao''),
              (''content'', field r ''content'')]"
  have f: "field (newRecord L inp r) k = (case map_of r k of None \<Rightarrow> field ?base k | Some v \<Rightarrow> v)" for k
    unfolding newRecord_def using assms by (rule field_spread)
  have "field ?base ''id'' = JStr (generateRecordId (id_now inp) (id_random inp))"
    and "field ?base ''timestamp'' = JStr (toISOString L (stamp_now inp))"
    by (simp_all add: field_def)
  then show ?thesis
    using addRecord_stores[of L s inp uid r encrypted s'] by (simp only: f) blast
qed

text \<open>
  A record that brings its own id and timestamp, a note that brings neither, and the
  first one stored by a call on the empty store.
\<close>

theorem caller_fields_override_witness:
  "field (newRecord demo_lib (demo_inputs 1000) demo_own) ''id'' = JStr ''my-id'' \<and>
   field (newRecord demo_lib (demo_inputs 1000) demo_own) ''timestamp'' = JStr ''1999'' \<and>
   field (newRecord demo_lib (demo_inputs 1000) (demo_note ''plain'')) ''id''
     = JStr (generateRecordId 1000 ''k3x9q2m1z'') \<and>
   field (newRecord demo_lib (demo_inputs 1000) (demo_note ''plain'')) ''timestamp''
     = JStr (toISOString demo_lib 1000) \<and>
   (\<exists>s' d written.
      addRecord demo_lib demo_state (demo_inputs 1000) demo_user demo_own False = (True, s') \<and>
      files s' (getUserDataPath demo_user) = Some written \<and>
      stored_as demo_lib (snd (loadUserData demo_lib demo_state (load_now (demo_inputs 1000)) demo_user False))
        (save_nonce (demo_inputs 1000)) False d written \<and>
      newRecord demo_lib (demo_inputs 1000) demo_own \<in> set (records d))"
proof -
  have d1: "distinct (map fst demo_own)" and d2: "distinct (map fst (demo_note ''plain''))"
    by (simp_all add: demo_own_def demo_note_def)
  have "fst (addRecord demo_lib demo_state (demo_inputs 1000) demo_user demo_own False) = True"
    by (rule addRecord_succeeds) (simp_all add: demo_state_def)
  then obtain s' where
    a: "addRecord demo_lib demo_state (demo_inputs 1000) demo_user demo_own False = (True, s')"
    by (cases "addRecord demo_lib demo_state (demo_inputs 1000) demo_user demo_own False") simp
  from caller_fields_override[OF d1, of demo_lib "demo_inputs 1000" demo_state demo_user False s']
    caller_fields_override[OF d2, of demo_lib "demo_inputs 1000" demo_state demo_user False s'] a
  show ?thesis
    by (simp add: demo_own_def demo_note_def demo_inputs_def)
qed

section \<open>Verification: recent records\<close>

lemma date_ge_iff: "date_ge v limit \<longleftrightarrow> (\<exists>d. v = JStr d \<and> limit \<le> d)"
  by (cases v) (simp_all add: date_ge_def)

text \<open>
  Claim C6.  \<^verbatim>\<open>getRecentRecords(userId, days, encrypted)\<close> returns exactly the records whose
  \<^verbatim>\<open>date\<close> is a string that is lexicographically greater than or equal to the text of the
  date \<open>days\<close> days before today, the bound included.  For example, with records dated
  today, three days ago and ten days ago, and \<open>days = 7\<close>, it returns the first two and not
  the third.  The example is about dates written \<^verbatim>\<open>YYYY-MM-DD\<close>: the years from ten days ago
  to today have four digits.
\<close>

theorem getRecentRecords_window:
  "fst (getRecentRecords L s now current uid days encrypted) =
     filter (\<lambda>r. \<exists>d. field r ''date'' = JStr d \<and> formatDate (setDate_minus days current) \<le> d)
       (records (fst (loadUserData L s now uid encrypted))) \<and>
   (valid_date current \<and> 1000 \<le> getFullYear (setDate_minus 10 current) \<and>
    getFullYear current \<le> 9999 \<and>
    records (fst (loadUserData L s now uid encrypted)) = [ra, rb, rc] \<and>
    field ra ''date'' = JStr (formatDate current) \<and>
    field rb ''date'' = JStr (formatDate (setDate_minus 3 current)) \<and>
    field rc ''date'' = JStr (formatDate (setDate_minus 10 current)) \<longrightarrow>
      fst (getRecentRecords L s now current uid 7 encrypted) = [ra, rb])"
proof -
  have general: "fst (getRecentRecords L s now current uid k encrypted) =
     filter (\<lambda>r. \<exists>d. field r ''date'' = JStr d \<and> formatDate (setDate_minus k current) \<le> d)
       (records (fst (loadUserData L s now uid encrypted)))" for k
    by (simp add: getRecentRecords_def Let_def date_ge_iff split: prod.split)
  have "fst (getRecentRecords L s now current uid 7 encrypted) = [ra, rb]"
    if v: "valid_date current" and lo: "1000 \<le> getFullYear (setDate_minus 10 current)"
      and hi: "getFullYear current \<le> 9999"
      and recs: "records (fst (loadUserData L s now uid encrypted)) = [ra, rb, rc]"
      and a: "field ra ''date'' = JStr (formatDate current)"
      and b: "field rb ''date'' = JStr (formatDate (setDate_minus 3 current))"
      and c: "field rc ''date'' = JStr (formatDate (setDate_minus 10 current))"
    using week_window[OF v lo hi] by (simp add: general recs a b c)
  with general[of days] show ?thesis by blast
qed

lemma dec_str_numeral:
  "dec_str (numeral k) =
     (if numeral k < (10::nat) then [digit_char (numeral k)]
      else dec_str (numeral k div 10) @ [digit_char (numeral k mod 10)])"
  "dec_str (Suc 0) = [digit_char 1]"
  "dec_str 0 = [digit_char 0]"
  by (subst dec_str.simps, simp)+

lemma back_numeral:
  "setDate_minus 3 d = prev_day (prev_day (prev_day d))"
  "setDate_minus 7 d = prev_day (prev_day (prev_day (prev_day (setDate_minus 3 d))))"
  "setDate_minus 10 d = prev_day (prev_day (prev_day (setDate_minus 7 d)))"
  by (simp_all add: setDate_minus_def eval_nat_numeral)

lemma demo_dates:
  "formatDate demo_today = ''2025-01-05''"
  "formatDate (setDate_minus 3 demo_today) = ''2025-01-02''"
  "formatDate (setDate_minus 7 demo_today) = ''2024-12-29''"
  "formatDate (setDate_minus 10 demo_today) = ''2024-12-26''"
  "getFullYear (setDate_minus 10 demo_today) = 2024"
  "valid_date demo_today"
  "getFullYear demo_today = 2025"
proof -
  have d3: "setDate_minus 3 demo_today = \<lparr>getFullYear = 2025, getMonth = 0, getDate = 2\<rparr>"
    by (simp add: back_numeral demo_today_def prev_day_def)
  have d7: "setDate_minus 7 demo_today = \<lparr>getFullYear = 2024, getMonth = 11, getDate = 29\<rparr>"
    by (simp add: back_numeral(2) d3 prev_day_def days_in_month_def)
  have d10: "setDate_minus 10 demo_today = \<lparr>getFullYear = 2024, getMonth = 11, getDate = 26\<rparr>"
    by (simp add: back_numeral(3) d7 prev_day_def days_in_month_def)
  show "formatDate demo_today = ''2025-01-05''"
    by (simp add: demo_today_def formatDate_def num_str_def padStart2_def
          dec_str_numeral digit_char_def digit_chars_def)
  show "formatDate (setDate_minus 3 demo_today) = ''2025-01-02''"
    "formatDate (setDate_minus 7 demo_today) = ''2024-12-29''"
    "formatDate (setDate_minus 10 demo_today) = ''2024-12-26''"
    unfolding d3 d7 d10
    by (simp_all add: formatDate_def num_str_def padStart2_def
          dec_str_numeral digit_char_def digit_chars_def)
  show "getFullYear (setDate_minus 10 demo_today) = 2024" by (simp add: d10)
  show "valid_date demo_today" by (simp add: valid_date_def demo_today_def days_in_month_def)
  show "getFullYear demo_today = 2025" by (simp add: demo_today_def)
qed

text \<open>
  The example on 5 January 2025: the limit is 29 December 2024, ten days ago was
  26 December.
\<close>

theorem getRecentRecords_window_witness:
  "fst (getRecentRecords demo_lib
          (demo_file (Json_doc (demo_document
             [demo_dated ''2025-01-05'', demo_dated ''2025-01-02'', demo_dated ''2024-12-26''])))
          (1000, 1001) demo_today demo_user 7 False)
     = [demo_dated ''2025-01-05'', demo_dated ''2025-01-02'']"
proof -
  let ?s = "demo_file (Json_doc (demo_document
             [demo_dated ''2025-01-05'', demo_dated ''2025-01-02'', demo_dated ''2024-12-26'']))"
  have l: "records (fst (loadUserData demo_lib ?s (1000, 1001) demo_user False)) =
      [demo_dated ''2025-01-05'', demo_dated ''2025-01-02'', demo_dated ''2024-12-26'']"
    by (simp add: loadUserData_def existsSync_def readFileSync_def demo_file_def demo_state_def
          demo_lib_def demo_document_def)
  have f: "field (demo_dated day) ''date'' = JStr day" for day
    by (simp add: demo_dated_def field_def)
  have hyp: "valid_date demo_today \<and> 1000 \<le> getFullYear (setDate_minus 10 demo_today) \<and>
    getFullYear demo_today \<le> 9999 \<and>
    records (fst (loadUserData demo_lib ?s (1000, 1001) demo_user False)) =
      [demo_dated ''2025-01-05'', demo_dated ''2025-01-02'', demo_dated ''2024-12-26''] \<and>
    field (demo_dated ''2025-01-05'') ''date'' = JStr (formatDate demo_today) \<and>
    field (demo_dated ''2025-01-02'') ''date'' = JStr (formatDate (setDate_minus 3 demo_today)) \<and>
    field (demo_dated ''2024-12-26'') ''date'' = JStr (formatDate (setDate_minus 10 demo_today))"
    by (simp add: l f demo_dates)
  from getRecentRecords_window[of demo_lib ?s "(1000, 1001)" demo_today demo_user 7 False
      "demo_dated ''2025-01-05''" "demo_dated ''2025-01-02''" "demo_dated ''2024-12-26''"]
  have "valid_date demo_today \<and> 1000 \<le> getFullYear (setDate_minus 10 demo_today) \<and>
    getFullYear demo_today \<le> 9999 \<and>
    records (fst (loadUserData demo_lib ?s (1000, 1001) demo_user False)) =
      [demo_dated ''2025-01-05'', demo_dated ''2025-01-02'', demo_dated ''2024-12-26''] \<and>
    field (demo_dated ''2025-01-05'') ''date'' = JStr (formatDate demo_today) \<and>
    field (demo_dated ''2025-01-02'') ''date'' = JStr (formatDate (setDate_minus 3 demo_today)) \<and>
    field (demo_dated ''2024-12-26'') ''date'' = JStr (formatDate (setDate_minus 10 demo_today))
    \<longrightarrow> fst (getRecentRecords demo_lib ?s (1000, 1001) demo_today demo_user 7 False)
          = [demo_dated ''2025-01-05'', demo_dated ''2025-01-02'']"
    by (rule conjunct2)
  with hyp show ?thesis by (rule rev_mp)
qed

section \<open>Verification: the store on concrete inputs\<close>

text \<open>
  \<^verbatim>\<open>loadUserData\<close> with no file, with a file that cannot be read, with a file that is
  not a blob (read with encryption), with a file that is not JSON, and with a document.
\<close>

theorem loadUserData_degrades_witness:
  "loadUserData demo_lib demo_state (1000, 1001) demo_user False
     = (empty_document demo_lib (1000, 1001) demo_user, demo_state) \<and>
   fst (loadUserData demo_lib demo_unreadable (1000, 1001) demo_user False)
     = error_document demo_lib (1000, 1001) demo_user \<and>
   fst (loadUserData demo_lib (demo_file (Text ''not a blob'')) (1000, 1001) demo_user True)
     = error_document demo_lib (1000, 1001) demo_user \<and>
   fst (loadUserData demo_lib (demo_file (Text ''not json'')) (1000, 1001) demo_user False)
     = error_document demo_lib (1000, 1001) demo_user \<and>
   fst (loadUserData demo_lib (demo_file (Json_doc (demo_document [demo_note ''kept'']))) (1000, 1001)
          demo_user False)
     = demo_document [demo_note ''kept'']"
  using loadUserData_degrades[of demo_state demo_user demo_lib "(1000, 1001)" False]
    loadUserData_degrades[of demo_unreadable demo_user demo_lib "(1000, 1001)" False]
    loadUserData_degrades[of "demo_file (Text ''not a blob'')" demo_user demo_lib "(1000, 1001)" True]
    loadUserData_degrades[of "demo_file (Text ''not json'')" demo_user demo_lib "(1000, 1001)" False]
    loadUserData_degrades[of "demo_file (Json_doc (demo_document [demo_note ''kept'']))" demo_user
      demo_lib "(1000, 1001)" False]
  by (simp add: existsSync_def readFileSync_def demo_state_def demo_unreadable_def demo_file_def
        decryptData_def demo_lib_def)


text \<open>
  \<^verbatim>\<open>saveUserData\<close> of a document with two records, then into a directory that cannot be
  written, then with a cipher that throws.
\<close>

theorem saveUserData_persists_witness:
  "(\<exists>s'. saveUserData demo_lib demo_state 2000 (Octets ''0123456789abcdef'') demo_user
            (demo_document [demo_note ''a'', demo_note ''b'']) False = (True, s') \<and>
         files s' (getUserDataPath demo_user) =
           Some (json_stringify_doc demo_lib
                   (with_metadata demo_lib 2000 (demo_document [demo_note ''a'', demo_note ''b''])))) \<and>
   metadata (with_metadata demo_lib 2000 (demo_document [demo_note ''a'', demo_note ''b''])) =
     Some [(''createdAt'', JStr ''1000''), (''lastUpdate'', JStr (num_str 2000)),
           (''totalRecords'', JNum 2)] \<and>
   fst (saveUserData demo_lib demo_readonly 2000 (Octets ''0123456789abcdef'') demo_user
          (demo_document [demo_note ''a'']) False) = False \<and>
   files (snd (saveUserData demo_lib demo_readonly 2000 (Octets ''0123456789abcdef'') demo_user
          (demo_document [demo_note ''a'']) False)) = files demo_readonly \<and>
   fst (saveUserData demo_lib_no_cipher demo_state 2000 (Octets ''0123456789abcdef'') demo_user
          (demo_document [demo_note ''a'']) True) = False"
proof -
  let ?doc = "demo_document [demo_note ''a'', demo_note ''b'']"
  let ?nonce = "Octets ''0123456789abcdef''"
  have "fst (saveUserData demo_lib demo_state 2000 ?nonce demo_user ?doc False) = True"
    by (rule saveUserData_succeeds) (simp_all add: demo_state_def)
  then obtain s' where
    sv: "saveUserData demo_lib demo_state 2000 ?nonce demo_user ?doc False = (True, s')"
    by (cases "saveUserData demo_lib demo_state 2000 ?nonce demo_user ?doc False") simp
  have m: "metadata (with_metadata demo_lib 2000 ?doc) =
     Some [(''createdAt'', JStr ''1000''), (''lastUpdate'', JStr (num_str 2000)),
           (''totalRecords'', JNum 2)]"
    by (simp add: with_metadata_def demo_document_def demo_lib_def Let_def)
  have w: "write_fails demo_readonly (getUserDataPath demo_user)"
    by (simp add: demo_readonly_def)
  have e: "isl (fst (encryptData demo_lib_no_cipher demo_state ?nonce
      (json_stringify_doc demo_lib_no_cipher
         (with_metadata demo_lib_no_cipher 2000 (demo_document [demo_note ''a''])))))"
    by (simp add: encryptData_def demo_lib_no_cipher_def split: prod.split)
  from saveUserData_persists[of demo_lib demo_state 2000 ?nonce demo_user ?doc False s'] sv
  have "files s' (getUserDataPath demo_user) =
           Some (json_stringify_doc demo_lib (with_metadata demo_lib 2000 ?doc))"
    by (simp add: stored_as_def)
  moreover from saveUserData_persists[of demo_lib demo_readonly 2000 ?nonce demo_user
      "demo_document [demo_note ''a'']" False] w
  have "fst (saveUserData demo_lib demo_readonly 2000 ?nonce demo_user
          (demo_document [demo_note ''a'']) False) = False"
    "files (snd (saveUserData demo_lib demo_readonly 2000 ?nonce demo_user
          (demo_document [demo_note ''a'']) False)) = files demo_readonly"
    by simp_all
  moreover from saveUserData_persists[of demo_lib_no_cipher demo_state 2000 ?nonce demo_user
      "demo_document [demo_note ''a'']" True] e
  have "fst (saveUserData demo_lib_no_cipher demo_state 2000 ?nonce demo_user
          (demo_document [demo_note ''a'']) True) = False"
    by simp
  ultimately show ?thesis using sv m by blast
qed

text \<open>
  Claim C9 as it was stated fails where the file exists and \<^verbatim>\<open>unlinkSync\<close> throws: the
  \<^verbatim>\<open>catch\<close> returns false although the file existed, the file stays, and \<^verbatim>\<open>loadUserData\<close>
  afterwards returns its one record, with \<^verbatim>\<open>totalRecords\<close> 1.
\<close>

theorem deleteUserData_counterexample:
  "existsSync demo_locked (getUserDataPath demo_user) \<and>
   deleteUserData demo_locked demo_user = (False, demo_locked) \<and>
   fst (loadUserData demo_lib (snd (deleteUserData demo_locked demo_user)) (1000, 1001) demo_user False)
     = demo_document [demo_note ''kept''] \<and>
   field (the (metadata (demo_document [demo_note ''kept'']))) ''totalRecords'' = JNum 1"
  by (simp add: deleteUserData_def unlinkSync_def existsSync_def demo_locked_def demo_file_def
        loadUserData_def readFileSync_def demo_state_def demo_lib_def demo_document_def field_def)

text \<open>The three cases of \<^verbatim>\<open>deleteUserData\<close>, and the load after a successful removal.\<close>

theorem deleteUserData_cases_witness:
  "fst (deleteUserData (demo_file (Json_doc (demo_document [demo_note ''kept'']))) demo_user) = True \<and>
   \<not> existsSync (snd (deleteUserData (demo_file (Json_doc (demo_document [demo_note ''kept'']))) demo_user))
       (getUserDataPath demo_user) \<and>
   fst (loadUserData demo_lib
          (snd (deleteUserData (demo_file (Json_doc (demo_document [demo_note ''kept'']))) demo_user))
          (1000, 1001) demo_user False)
     = empty_document demo_lib (1000, 1001) demo_user \<and>
   deleteUserData demo_state demo_user = (False, demo_state) \<and>
   deleteUserData demo_locked demo_user = (False, demo_locked)"
  using deleteUserData_cases[of "demo_file (Json_doc (demo_document [demo_note ''kept'']))" demo_user
      demo_lib "(1000, 1001)" False]
    deleteUserData_cases[of demo_state demo_user demo_lib "(1000, 1001)" False]
    deleteUserData_cases[of demo_locked demo_user demo_lib "(1000, 1001)" False]
  by (simp add: existsSync_def demo_file_def demo_state_def demo_locked_def)

section \<open>Verification: a blob that was tampered with\<close>














end
